theory Spec2Isabelle
  imports Main "HOL-Library.Sublist"
begin

section \<open>Data model (src/runner/types.ts)\<close>

text \<open>
  A thrown JavaScript error is a value of type \<open>err\<close> (its message). The type variable
  \<open>'v\<close> stands for TypeScript's \<open>unknown\<close>: the payloads the runner passes on without
  looking inside. An optional field \<open>f?: T\<close> is a field of type \<open>T option\<close>. Fields the
  runner never reads (\<open>config\<close>, \<open>created_at\<close>, \<open>checkpoint\<close>, \<open>metadata\<close>, ...) and the
  \<open>timestamp\<close> of an event (real time) are left out. A JavaScript \<open>number\<close> that holds a
  count is an \<open>int\<close>.
\<close>

type_synonym err = string

datatype message_type = Human | Ai | Tool | System

datatype content_part = ContentPart (part_type: string) (part_text: "string option")

datatype content = ContentString string | ContentParts "content_part list"

record 'v ToolCall =
  tc_id :: string
  tc_name :: string
  tc_args :: "(string \<times> 'v) list"

text \<open>interface LangGraphMessage: \<open>id\<close>, \<open>type\<close>, \<open>content\<close>, \<open>tool_calls?\<close>, \<open>tool_call_id?\<close>.\<close>

record 'v LangGraphMessage =
  msg_id :: string
  msg_type :: message_type
  msg_content :: content
  msg_tool_calls :: "'v ToolCall list option"
  msg_tool_call_id :: "string option"

text \<open>\<open>ThreadState.values\<close>: \<open>messages?\<close> and any other keys.\<close>

record 'v StateValues =
  sv_messages :: "'v LangGraphMessage list option"
  sv_others :: "(string \<times> 'v) list"

record 'v Interrupt =
  interrupt_value :: "'v option"

record 'v Task =
  task_id :: string
  task_name :: string
  task_interrupts :: "'v Interrupt list option"

text \<open>
  interface ThreadState. The interface declares \<open>values\<close> and \<open>next\<close> as always present,
  but the runner tests both for absence (\<open>state.values?.messages\<close>,
  \<open>if (latestState.values)\<close>, \<open>latestState.next && ...\<close>), so both are optional here.
\<close>

record 'v ThreadState =
  ts_values :: "'v StateValues option"
  ts_next :: "string list option"
  ts_tasks :: "'v Task list option"

datatype run_status = Running | Pending | Success | Error | Timeout | Interrupted

record HistoryRun =
  run_id :: string
  run_status :: run_status

text \<open>interface HistoryHydratingRunnerConfig; \<open>cfg_client\<close> says whether a custom client is given.\<close>

record HistoryHydratingRunnerConfig =
  cfg_deploymentUrl :: "string option"
  cfg_graphId :: "string option"
  cfg_client :: bool
  cfg_langsmithApiKey :: "string option"
  cfg_historyLimit :: "int option"
  cfg_clientTimeoutMs :: "int option"
  cfg_debug :: "bool option"

record FrozenAgentConfig =
  fc_deploymentUrl :: string
  fc_graphId :: string
  fc_langsmithApiKey :: "string option"
  fc_clientTimeoutMs :: int

text \<open>
  The fields of class HistoryHydratingAgentRunner that the hydration reads or writes.
  \<open>activeRun\<close> is the field \<open>this.activeRun.manuallyEmittedState\<close>: it is initialised to
  absent when the runner is constructed and assigned only at the end of
  \<open>joinAndProcessStream\<close>.
\<close>

record 'v Runner =
  historyLimit :: int
  debug :: bool
  customClient :: bool
  frozenConfig :: FrozenAgentConfig
  activeRun :: "'v StateValues option"

section \<open>Constants and constructor\<close>

text \<open>
  Modelled from the spec: the file \<open>./constants\<close> (DEFAULT_HISTORY_LIMIT, MAX_HISTORY_LIMIT,
  DEFAULT_TIMEOUT) is missing. The values are the ones documented in types.ts
  (``Default: 100, Maximum: 1000 (LangGraph API limit)'', ``Default: 1800000 (30 minutes)'')
  and in the constructor's comment (``maximum limit of 1000 for history endpoint'').
\<close>

definition DEFAULT_HISTORY_LIMIT :: int where
  "DEFAULT_HISTORY_LIMIT = 100"

definition MAX_HISTORY_LIMIT :: int where
  "MAX_HISTORY_LIMIT = 1000"

definition DEFAULT_TIMEOUT :: int where
  "DEFAULT_TIMEOUT = 1800000"

text \<open>\<open>!s\<close> for an optional string: absent or empty.\<close>

definition falsy :: "string option \<Rightarrow> bool" where
  "falsy s = (case s of None \<Rightarrow> True | Some t \<Rightarrow> t = [])"

definition freeze :: "HistoryHydratingRunnerConfig \<Rightarrow> FrozenAgentConfig" where
  "freeze config =
     \<lparr> fc_deploymentUrl = the (cfg_deploymentUrl config),
       fc_graphId = the (cfg_graphId config),
       fc_langsmithApiKey = cfg_langsmithApiKey config,
       fc_clientTimeoutMs =
         (case cfg_clientTimeoutMs config of None \<Rightarrow> DEFAULT_TIMEOUT | Some t \<Rightarrow> t) \<rparr>"

text \<open>
  The constructor (lines 94-151). \<open>freeze\<close> is reached only after both identifiers have been
  found present, so \<open>the\<close> is applied to \<open>Some\<close> there.
\<close>

definition "constructor" :: "HistoryHydratingRunnerConfig \<Rightarrow> err + 'v Runner" where
  "constructor config =
     (let limit = min (case cfg_historyLimit config of
                         None \<Rightarrow> DEFAULT_HISTORY_LIMIT | Some k \<Rightarrow> k)
                      MAX_HISTORY_LIMIT;
          dbg = (case cfg_debug config of None \<Rightarrow> False | Some b \<Rightarrow> b)
      in if cfg_client config then
           if falsy (cfg_deploymentUrl config) then
             Inl ''HistoryHydratingAgentRunner: deploymentUrl is required (even when using a custom client, for agent creation)''
           else if falsy (cfg_graphId config) then
             Inl ''HistoryHydratingAgentRunner: graphId is required (even when using a custom client, for agent creation)''
           else Inr \<lparr> historyLimit = limit, debug = dbg, customClient = True,
                      frozenConfig = freeze config, activeRun = None \<rparr>
         else
           if falsy (cfg_deploymentUrl config) then
             Inl ''HistoryHydratingAgentRunner: deploymentUrl is required when not using a custom client''
           else if falsy (cfg_graphId config) then
             Inl ''HistoryHydratingAgentRunner: graphId is required when not using a custom client''
           else Inr \<lparr> historyLimit = limit, debug = dbg, customClient = False,
                      frozenConfig = freeze config, activeRun = None \<rparr>)"

section \<open>MessageLog builder (connect, lines 410-440)\<close>

text \<open>
  The inner loop body (lines 423-428): \<open>allMessages\<close> and \<open>seenMessageIds\<close> are the two
  components of the accumulator.
\<close>

definition addMessage ::
  "'v LangGraphMessage \<Rightarrow> 'v LangGraphMessage list \<times> string set
     \<Rightarrow> 'v LangGraphMessage list \<times> string set" where
  "addMessage msg acc =
     (case acc of (allMessages, seenMessageIds) \<Rightarrow>
        if msg_id msg \<notin> seenMessageIds
        then (allMessages @ [msg], insert (msg_id msg) seenMessageIds)
        else (allMessages, seenMessageIds))"

text \<open>The outer loop body (lines 417-429): a checkpoint without \<open>values.messages\<close> adds nothing.\<close>

definition addCheckpoint ::
  "'v ThreadState \<Rightarrow> 'v LangGraphMessage list \<times> string set
     \<Rightarrow> 'v LangGraphMessage list \<times> string set" where
  "addCheckpoint state acc =
     (case ts_values state of
        None \<Rightarrow> acc
      | Some vals \<Rightarrow>
          (case sv_messages vals of
             None \<Rightarrow> acc
           | Some messages \<Rightarrow> fold addMessage messages acc))"

text \<open>
  Lines 412-430. \<open>history.reverse()\<close> reverses the array in place: the loop walks the
  reversed array, and the array stays reversed for the rest of \<open>connect\<close>. The argument
  here is the array as the backend returned it.
\<close>

definition extractMessages :: "'v ThreadState list \<Rightarrow> 'v LangGraphMessage list" where
  "extractMessages history = fst (fold addCheckpoint (rev history) ([], {}))"

text \<open>\<open>Array.prototype.slice(start)\<close> with one integer argument.\<close>

definition slice :: "int \<Rightarrow> 'a list \<Rightarrow> 'a list" where
  "slice start xs =
     (let len = int (length xs);
          k = (if start < 0 then max (len + start) 0 else min start len)
      in drop (nat k) xs)"

text \<open>Lines 436-440.\<close>

definition limitedMessages :: "'v Runner \<Rightarrow> 'a list \<Rightarrow> 'a list" where
  "limitedMessages r allMessages =
     (if historyLimit r > 0 then slice (- historyLimit r) allMessages else allMessages)"

text \<open>Lines 378-380: the limit passed to \<open>getHistory\<close>.\<close>

definition fetchLimit :: "'v Runner \<Rightarrow> int" where
  "fetchLimit r = (if historyLimit r > 0 then historyLimit r else DEFAULT_HISTORY_LIMIT)"

subsection \<open>The specification's wording of the log\<close>

text \<open>
  The messages of a checkpoint, ``defaulting to empty'', and the chronological sequence of
  all messages of a newest-first history.
\<close>

definition checkpointMessages :: "'v ThreadState \<Rightarrow> 'v LangGraphMessage list" where
  "checkpointMessages state =
     (case ts_values state of
        None \<Rightarrow> []
      | Some vals \<Rightarrow> (case sv_messages vals of None \<Rightarrow> [] | Some messages \<Rightarrow> messages))"

definition chronological :: "'v ThreadState list \<Rightarrow> 'v LangGraphMessage list" where
  "chronological history = concat (map checkpointMessages (rev history))"

text \<open>
  First-occurrence order, as the specification words it: a message stays exactly when no
  earlier message of the sequence has its id.
\<close>

fun firstOccurrences :: "'v LangGraphMessage list \<Rightarrow> 'v LangGraphMessage list" where
  "firstOccurrences [] = []"
| "firstOccurrences (m # ms) = m # firstOccurrences (filter (\<lambda>x. msg_id x \<noteq> msg_id m) ms)"

section \<open>Events, sink and backend\<close>

text \<open>
  The \<open>rawEvent\<close> field of the two custom-typed events: \<open>{id, event: "values", data}\<close> of a
  state snapshot and \<open>{id, value}\<close> of an interrupt.
\<close>

datatype 'v RawEvent =
    RawValues string "'v StateValues"
  | RawInterrupt string "'v option"

text \<open>
  The events pushed to the subscriber. The last two arguments of every constructor are
  \<open>threadId\<close> and \<open>runId\<close>. \<open>CUSTOM name value rawEvent\<close> with the name \<open>on_interrupt\<close> is the
  interrupt event. The message and tool-call events are the ones a chunk translator emits
  during a stream join. \<open>'m\<close> is the type of a transformed message.
\<close>

datatype ('v, 'm) BaseEvent =
    RUN_STARTED string string
  | MESSAGES_SNAPSHOT "'m list" string string
  | STATE_SNAPSHOT "'v StateValues" "'v RawEvent" string string
  | CUSTOM string "string option" "'v RawEvent" string string
  | RUN_FINISHED string string
  | TEXT_MESSAGE_START string string string
  | TEXT_MESSAGE_CONTENT string string string string
  | TEXT_MESSAGE_END string string string
  | TOOL_CALL_START string string string
  | TOOL_CALL_ARGS string string string string
  | TOOL_CALL_END string string string

text \<open>A request made to the backend client, with its arguments.\<close>

datatype call =
    GetHistory string int
  | GetState string
  | RunsList string
  | JoinStream string string "string list"

text \<open>
  What \<open>joinStream\<close> yields: the chunks read before the backend closes the stream, and the
  error the iteration throws instead of closing, if any. A stream that the backend never
  closes has no such description: on it the loop of \<open>joinAndProcessStream\<close> does not return.
\<close>

record 'c Stream =
  stream_chunks :: "'c list"
  stream_error :: "err option"

text \<open>
  interface HistoryClientInterface. A rejected promise or a thrown error is \<open>Inl\<close>. A result
  that may be \<open>null\<close> at run time (the runner tests \<open>!history\<close>, \<open>runs && ...\<close>, \<open>runs?.find\<close>)
  is an option. \<open>connect\<close> calls \<open>runs.list\<close> up to two times and the backend may answer
  differently each time: the first argument of \<open>runs_list\<close> is the number of earlier calls.
\<close>

record ('v, 'c) HistoryClientInterface =
  threads_getHistory :: "string \<Rightarrow> int \<Rightarrow> err + 'v ThreadState list option"
  threads_getState :: "string \<Rightarrow> err + 'v ThreadState"
  runs_list :: "nat \<Rightarrow> string \<Rightarrow> err + HistoryRun list option"
  runs_joinStream :: "string \<Rightarrow> string \<Rightarrow> string list \<Rightarrow> err + 'c Stream"

text \<open>
  The options object passed to \<open>processStreamChunk\<close> (lines 640-648), without the
  subscriber and the debug flag, and what one call does: the events it pushes to the
  subscriber, the two sets after its mutations, and the value it returns or the error it
  throws.
\<close>

record 'v ChunkContext =
  cc_threadId :: string
  cc_runId :: string
  cc_startedMessages :: "string set"
  cc_startedToolCalls :: "string set"
  cc_manuallyEmittedState :: "'v StateValues option"

record ('v, 'm) ChunkEffect =
  ce_events :: "('v, 'm) BaseEvent list"
  ce_startedMessages :: "string set"
  ce_startedToolCalls :: "string set"
  ce_result :: "err + (string \<times> 'v StateValues option)"

text \<open>
  What the runner imports and calls but does not define: \<open>transformMessages\<close> and
  \<open>processStreamChunk\<close> (their files are missing), and the built-ins \<open>JSON.stringify\<close>
  (which returns \<open>undefined\<close> for \<open>undefined\<close> and throws a TypeError on a BigInt or a
  cyclic value) and \<open>Math.random().toString(36).slice(2)\<close> (by the number of earlier
  draws). They are parameters of the model.
\<close>

record ('v, 'm, 'c) Imports =
  transformMessages :: "'v LangGraphMessage list \<Rightarrow> err + 'm list"
  processStreamChunk :: "'c \<Rightarrow> 'v ChunkContext \<Rightarrow> ('v, 'm) ChunkEffect"
  JSON_stringify :: "'v option \<Rightarrow> err + string option"
  random36 :: "nat \<Rightarrow> string"

text \<open>
  The state threaded through one \<open>connect\<close>: what the subscriber has received
  (\<open>emitted\<close>, in order, and whether \<open>complete()\<close> was called), the backend requests made,
  the number of random draws, and the runner's field \<open>activeRun.manuallyEmittedState\<close>.
\<close>

record ('v, 'm) Conn =
  emitted :: "('v, 'm) BaseEvent list"
  completed :: bool
  calls :: "call list"
  randoms :: nat
  runnerActiveRun :: "'v StateValues option"

definition subscriber_next :: "('v, 'm) BaseEvent \<Rightarrow> ('v, 'm) Conn \<Rightarrow> ('v, 'm) Conn" where
  "subscriber_next e s = s\<lparr>emitted := emitted s @ [e]\<rparr>"

definition subscriber_complete :: "('v, 'm) Conn \<Rightarrow> ('v, 'm) Conn" where
  "subscriber_complete s = s\<lparr>completed := True\<rparr>"

definition request :: "call \<Rightarrow> ('v, 'm) Conn \<Rightarrow> ('v, 'm) Conn" where
  "request c s = s\<lparr>calls := calls s @ [c]\<rparr>"

text \<open>\<open>label + Math.random().toString(36).slice(2)\<close>.\<close>

definition randomId ::
  "string \<Rightarrow> ('v, 'm, 'c) Imports \<Rightarrow> ('v, 'm) Conn \<Rightarrow> string \<times> ('v, 'm) Conn" where
  "randomId label im s = (label @ random36 im (randoms s), s\<lparr>randoms := Suc (randoms s)\<rparr>)"

section \<open>Hydration orchestrator (connect, lines 364-601)\<close>

text \<open>
  The three fallback events followed by \<open>complete()\<close>: lines 385-406 with the prefix
  \<open>hydration_\<close> and lines 574-595 with the prefix \<open>hydration_error_\<close>.
\<close>

definition emitFallback ::
  "string \<Rightarrow> ('v, 'm, 'c) Imports \<Rightarrow> string \<Rightarrow> ('v, 'm) Conn \<Rightarrow> ('v, 'm) Conn" where
  "emitFallback label im threadId s =
     (case randomId label im s of (fallbackRunId, s1) \<Rightarrow>
        subscriber_complete
          (subscriber_next (RUN_FINISHED threadId fallbackRunId)
            (subscriber_next (MESSAGES_SNAPSHOT [] threadId fallbackRunId)
              (subscriber_next (RUN_STARTED threadId fallbackRunId) s1))))"

text \<open>The predicate of \<open>tasks?.find\<close> (lines 501-503 and 666-668).\<close>

definition hasInterrupts :: "'v Task \<Rightarrow> bool" where
  "hasInterrupts task =
     (case task_interrupts task of None \<Rightarrow> False | Some is \<Rightarrow> length is > 0)"

definition interruptedTask :: "'v ThreadState \<Rightarrow> 'v Task option" where
  "interruptedTask state =
     (case ts_tasks state of None \<Rightarrow> None | Some tasks \<Rightarrow> find hasInterrupts tasks)"

text \<open>
  Lines 501-526, and again lines 666-691 with \<open>currentRunId\<close>: look for an interrupted
  task and emit its first interrupt. \<open>JSON.stringify\<close> may throw: then nothing is emitted
  and the error is returned.
\<close>

definition emitInterrupt ::
  "('v, 'm, 'c) Imports \<Rightarrow> string \<Rightarrow> string \<Rightarrow> 'v ThreadState \<Rightarrow> ('v, 'm) Conn
     \<Rightarrow> err option \<times> ('v, 'm) Conn" where
  "emitInterrupt im threadId runId state s =
     (case interruptedTask state of
        None \<Rightarrow> (None, s)
      | Some task \<Rightarrow>
          (case task_interrupts task of
             None \<Rightarrow> (None, s)
           | Some is \<Rightarrow>
               if length is > 0 then
                 (let interruptValue = (case is of [] \<Rightarrow> None | i # _ \<Rightarrow> interrupt_value i)
                  in case JSON_stringify im interruptValue of
                       Inl e \<Rightarrow> (Some e, s)
                     | Inr str \<Rightarrow>
                         (None, subscriber_next
                                  (CUSTOM ''on_interrupt'' str
                                     (RawInterrupt runId interruptValue) threadId runId) s))
               else (None, s)))"

subsection \<open>joinAndProcessStream (lines 612-716)\<close>

text \<open>The local variables of the loop over the stream.\<close>

record 'v LoopState =
  currentRunId :: string
  manuallyEmittedState :: "'v StateValues option"
  startedMessages :: "string set"
  startedToolCalls :: "string set"

text \<open>
  One iteration (lines 639-654). When \<open>processStreamChunk\<close> throws, the error is logged and
  the loop goes on: \<open>currentRunId\<close> and \<open>manuallyEmittedState\<close> keep their values, while the
  events already pushed and the mutations of the two sets stay.
\<close>

definition processOne ::
  "('v, 'm, 'c) Imports \<Rightarrow> string \<Rightarrow> 'c \<Rightarrow> 'v LoopState \<times> ('v, 'm) Conn
     \<Rightarrow> 'v LoopState \<times> ('v, 'm) Conn" where
  "processOne im threadId chunk acc =
     (case acc of (ls, s) \<Rightarrow>
        (let eff = processStreamChunk im chunk
                     \<lparr> cc_threadId = threadId, cc_runId = currentRunId ls,
                       cc_startedMessages = startedMessages ls,
                       cc_startedToolCalls = startedToolCalls ls,
                       cc_manuallyEmittedState = manuallyEmittedState ls \<rparr>;
             s1 = s\<lparr>emitted := emitted s @ ce_events eff\<rparr>;
             ls1 = ls\<lparr>startedMessages := ce_startedMessages eff,
                      startedToolCalls := ce_startedToolCalls eff\<rparr>
         in case ce_result eff of
              Inl chunkError \<Rightarrow> (ls1, s1)
            | Inr (newRunId, newState) \<Rightarrow>
                (ls1\<lparr>currentRunId := newRunId, manuallyEmittedState := newState\<rparr>, s1)))"

text \<open>
  The locals before the first chunk (lines 624-635): both sets empty, \<open>currentRunId\<close> the
  run joined, \<open>manuallyEmittedState\<close> read from \<open>this.activeRun\<close>.
\<close>

definition loopStart :: "string \<Rightarrow> 'v StateValues option \<Rightarrow> 'v LoopState" where
  "loopStart runId carried =
     \<lparr> currentRunId = runId, manuallyEmittedState = carried,
       startedMessages = {}, startedToolCalls = {} \<rparr>"

definition streamModes :: "string list" where
  "streamModes = [''events'', ''values'', ''updates'', ''custom'']"

text \<open>
  The result is the error the method rethrows, if any, and the state it leaves. The
  assignment to \<open>this.activeRun.manuallyEmittedState\<close> (line 658) is reached only when the
  stream ended without an error. The interrupt check after the stream is inside its own
  \<open>try\<close>: a failing \<open>getState\<close> or \<open>JSON.stringify\<close> is logged and skipped.
\<close>

definition joinAndProcessStream ::
  "('v, 'c) HistoryClientInterface \<Rightarrow> ('v, 'm, 'c) Imports \<Rightarrow> string \<Rightarrow> string
     \<Rightarrow> ('v, 'm) Conn \<Rightarrow> err option \<times> ('v, 'm) Conn" where
  "joinAndProcessStream client im threadId runId s =
     (let s1 = request (JoinStream threadId runId streamModes) s
      in case runs_joinStream client threadId runId streamModes of
           Inl e \<Rightarrow> (Some e, subscriber_next (RUN_FINISHED threadId runId) s1)
         | Inr stream \<Rightarrow>
             (case fold (processOne im threadId) (stream_chunks stream)
                     (loopStart runId (runnerActiveRun s1), s1) of
                (ls, s2) \<Rightarrow>
                  (case stream_error stream of
                     Some e \<Rightarrow> (Some e, subscriber_next (RUN_FINISHED threadId runId) s2)
                   | None \<Rightarrow>
                       (let s3 = s2\<lparr>runnerActiveRun := manuallyEmittedState ls\<rparr>;
                            s4 = request (GetState threadId) s3;
                            s5 = (case threads_getState client threadId of
                                    Inl stateError \<Rightarrow> s4
                                  | Inr threadState \<Rightarrow>
                                      snd (emitInterrupt im threadId (currentRunId ls)
                                             threadState s4))
                        in (None, subscriber_next
                                    (RUN_FINISHED threadId (currentRunId ls)) s5)))))"

subsection \<open>connect\<close>

text \<open>Lines 447-459: the id of the most recent run, or a generated one.\<close>

definition determineRunId ::
  "('v, 'c) HistoryClientInterface \<Rightarrow> ('v, 'm, 'c) Imports \<Rightarrow> string \<Rightarrow> ('v, 'm) Conn
     \<Rightarrow> string \<times> ('v, 'm) Conn" where
  "determineRunId client im threadId s =
     (let s1 = request (RunsList threadId) s
      in case runs_list client 0 threadId of
           Inl e \<Rightarrow> randomId ''hydration_'' im s1
         | Inr runs \<Rightarrow>
             (case runs of
                Some (r # rs) \<Rightarrow> (run_id r, s1)
              | _ \<Rightarrow> randomId ''hydration_'' im s1))"

text \<open>Line 529.\<close>

definition isThreadBusy :: "'v ThreadState \<Rightarrow> bool" where
  "isThreadBusy latestState =
     (case ts_next latestState of None \<Rightarrow> False | Some n \<Rightarrow> length n > 0)"

definition isActive :: "HistoryRun \<Rightarrow> bool" where
  "isActive run = (run_status run = Running \<or> run_status run = Pending)"

text \<open>Lines 531-543: a failing or absent run list leaves \<open>activeRun\<close> undefined.\<close>

definition findActiveRun ::
  "('v, 'c) HistoryClientInterface \<Rightarrow> string \<Rightarrow> 'v ThreadState \<Rightarrow> ('v, 'm) Conn
     \<Rightarrow> HistoryRun option \<times> ('v, 'm) Conn" where
  "findActiveRun client threadId latestState s =
     (if isThreadBusy latestState then
        (case runs_list client 1 threadId of
           Inl e \<Rightarrow> None
         | Inr None \<Rightarrow> None
         | Inr (Some runs) \<Rightarrow> find isActive runs,
         request (RunsList threadId) s)
      else (None, s))"

text \<open>
  Lines 410-526, for a history with at least one checkpoint: build the log, determine the
  run id, emit the snapshot events. \<open>history\<close> is the array after the in-place
  \<open>reverse()\<close>; \<open>latestState\<close> is its last element. The result is the error thrown
  (by \<open>transformMessages\<close> or \<open>JSON.stringify\<close>), or \<open>runId\<close> and \<open>latestState\<close>.
\<close>

definition emitSnapshot ::
  "'v Runner \<Rightarrow> ('v, 'c) HistoryClientInterface \<Rightarrow> ('v, 'm, 'c) Imports \<Rightarrow> string
     \<Rightarrow> 'v ThreadState list \<Rightarrow> ('v, 'm) Conn
     \<Rightarrow> (err + string \<times> 'v ThreadState) \<times> ('v, 'm) Conn" where
  "emitSnapshot r client im threadId fetched s =
     (let allMessages = extractMessages fetched;
          history = rev fetched
      in case transformMessages im (limitedMessages r allMessages) of
           Inl e \<Rightarrow> (Inl e, s)
         | Inr transformedMessages \<Rightarrow>
             (case determineRunId client im threadId s of
                (runId, s1) \<Rightarrow>
                  (let s2 = subscriber_next (RUN_STARTED threadId runId) s1;
                       s3 = subscriber_next
                              (MESSAGES_SNAPSHOT transformedMessages threadId runId) s2;
                       latestState = history ! (length history - 1);
                       s4 = (case ts_values latestState of
                               None \<Rightarrow> s3
                             | Some vals \<Rightarrow>
                                 subscriber_next
                                   (STATE_SNAPSHOT vals (RawValues runId vals) threadId runId)
                                   s3)
                   in case emitInterrupt im threadId runId latestState s4 of
                        (Some e, s5) \<Rightarrow> (Inl e, s5)
                      | (None, s5) \<Rightarrow> (Inr (runId, latestState), s5))))"

text \<open>
  Lines 528-570: look for an active run; join its stream (an error of the join is logged
  and dropped) or emit RUN_FINISHED; then \<open>complete()\<close>.
\<close>

definition finishRun ::
  "('v, 'c) HistoryClientInterface \<Rightarrow> ('v, 'm, 'c) Imports \<Rightarrow> string \<Rightarrow> string
     \<Rightarrow> 'v ThreadState \<Rightarrow> ('v, 'm) Conn \<Rightarrow> ('v, 'm) Conn" where
  "finishRun client im threadId runId latestState s =
     (case findActiveRun client threadId latestState s of
        (Some run, s1) \<Rightarrow>
          subscriber_complete (snd (joinAndProcessStream client im threadId (run_id run) s1))
      | (None, s1) \<Rightarrow>
          subscriber_complete (subscriber_next (RUN_FINISHED threadId runId) s1))"

text \<open>Lines 410-570.\<close>

definition hydrateHistory ::
  "'v Runner \<Rightarrow> ('v, 'c) HistoryClientInterface \<Rightarrow> ('v, 'm, 'c) Imports \<Rightarrow> string
     \<Rightarrow> 'v ThreadState list \<Rightarrow> ('v, 'm) Conn \<Rightarrow> err option \<times> ('v, 'm) Conn" where
  "hydrateHistory r client im threadId fetched s =
     (case emitSnapshot r client im threadId fetched s of
        (Inl e, s5) \<Rightarrow> (Some e, s5)
      | (Inr (runId, latestState), s5) \<Rightarrow>
          (None, finishRun client im threadId runId latestState s5))"

text \<open>The \<open>try\<close> block of \<open>hydrate\<close> (lines 376-570): the error it throws, if any, and the state.\<close>

definition hydrate ::
  "'v Runner \<Rightarrow> ('v, 'c) HistoryClientInterface \<Rightarrow> ('v, 'm, 'c) Imports \<Rightarrow> string
     \<Rightarrow> ('v, 'm) Conn \<Rightarrow> err option \<times> ('v, 'm) Conn" where
  "hydrate r client im threadId s =
     (let s1 = request (GetHistory threadId (fetchLimit r)) s
      in case threads_getHistory client threadId (fetchLimit r) of
           Inl e \<Rightarrow> (Some e, s1)
         | Inr None \<Rightarrow> (None, emitFallback ''hydration_'' im threadId s1)
         | Inr (Some fetched) \<Rightarrow>
             if length fetched = 0
             then (None, emitFallback ''hydration_'' im threadId s1)
             else hydrateHistory r client im threadId fetched s1)"

text \<open>A fresh subscriber and the runner's current \<open>activeRun\<close>.\<close>

definition initial :: "'v Runner \<Rightarrow> ('v, 'm) Conn" where
  "initial r = \<lparr> emitted = [], completed = False, calls = [], randoms = 0,
                 runnerActiveRun = activeRun r \<rparr>"

text \<open>\<open>connect\<close>: the \<open>try\<close> block and the \<open>catch\<close> block (lines 571-596).\<close>

definition connect ::
  "'v Runner \<Rightarrow> ('v, 'c) HistoryClientInterface \<Rightarrow> ('v, 'm, 'c) Imports \<Rightarrow> string
     \<Rightarrow> ('v, 'm) Conn" where
  "connect r client im threadId =
     (case hydrate r client im threadId (initial r) of
        (None, s) \<Rightarrow> s
      | (Some e, s) \<Rightarrow> emitFallback ''hydration_error_'' im threadId s)"

text \<open>The runner after a \<open>connect\<close>: only \<open>activeRun\<close> can have changed.\<close>

definition runnerAfter :: "'v Runner \<Rightarrow> ('v, 'm) Conn \<Rightarrow> 'v Runner" where
  "runnerAfter r s = r\<lparr>activeRun := runnerActiveRun s\<rparr>"

section \<open>Checkpoint inspector\<close>

text \<open>
  The payload that lines 501-511 select: \<open>interruptedTask.interrupts[0]?.value\<close>, when an
  interrupted task is found. \<open>Some None\<close> is an interrupt without a \<open>value\<close>.
\<close>

definition findInterrupt :: "'v ThreadState \<Rightarrow> 'v option option" where
  "findInterrupt state =
     (case interruptedTask state of
        None \<Rightarrow> None
      | Some task \<Rightarrow>
          (case task_interrupts task of
             Some (i # is) \<Rightarrow> Some (interrupt_value i)
           | _ \<Rightarrow> None))"

definition isInterruptEvent :: "('v, 'm) BaseEvent \<Rightarrow> bool" where
  "isInterruptEvent e =
     (case e of CUSTOM name str raw threadId runId \<Rightarrow> name = ''on_interrupt'' | _ \<Rightarrow> False)"

definition isStateSnapshot :: "('v, 'm) BaseEvent \<Rightarrow> bool" where
  "isStateSnapshot e =
     (case e of STATE_SNAPSHOT snapshot raw threadId runId \<Rightarrow> True | _ \<Rightarrow> False)"

definition isMessageStart :: "string \<Rightarrow> ('v, 'm) BaseEvent \<Rightarrow> bool" where
  "isMessageStart messageId e =
     (case e of TEXT_MESSAGE_START i threadId runId \<Rightarrow> i = messageId | _ \<Rightarrow> False)"

definition isToolCallStart :: "string \<Rightarrow> ('v, 'm) BaseEvent \<Rightarrow> bool" where
  "isToolCallStart toolCallId e =
     (case e of TOOL_CALL_START i threadId runId \<Rightarrow> i = toolCallId | _ \<Rightarrow> False)"

section \<open>Stream chunk translator\<close>

text \<open>
  Modelled from the spec: \<open>processStreamChunk\<close> (../utils/stream-processor) is missing.
  Section 4.4 of the specification gives the chunk kinds and what each emits: a message
  chunk (beginning, content or end) for a message id, a tool-call chunk for a tool-call
  id, a chunk of custom application state, and chunks of no recognised shape. A chunk may
  carry a new run id, which supersedes the current one.
\<close>

datatype chunk_phase = PhaseStart | PhaseContent | PhaseEnd

datatype 'v ChunkShape =
    MessageChunk chunk_phase string string
  | ToolCallChunk chunk_phase string string
  | StateChunk "'v StateValues"
  | UnknownChunk

record 'v StreamChunk =
  chunk_runId :: "string option"
  chunk_shape :: "'v ChunkShape"

text \<open>
  Modelled from the spec: the body of the missing \<open>processStreamChunk\<close>, after section 4.4.
  For a message chunk: ``if its id is not already in startedMessages, emit a message-start
  event and record it''; a content or end chunk without an earlier start gets the start
  synthesised the same way. Tool-call chunks: ``same start/track pattern keyed on tool-call
  id''. A state chunk is emitted as a STATE_SNAPSHOT-shaped event unless
  \<open>manuallyEmittedState\<close> equals its payload. The specification describes no assignment to
  \<open>manuallyEmittedState\<close>: the value received is the value returned. Unknown chunks are
  ignored. The translator does not throw.
\<close>

definition translateChunk :: "'v StreamChunk \<Rightarrow> 'v ChunkContext \<Rightarrow> ('v, 'm) ChunkEffect" where
  "translateChunk chunk ctx =
     (let threadId = cc_threadId ctx;
          runId = (case chunk_runId chunk of None \<Rightarrow> cc_runId ctx | Some new \<Rightarrow> new);
          unchanged = \<lparr> ce_events = [],
                        ce_startedMessages = cc_startedMessages ctx,
                        ce_startedToolCalls = cc_startedToolCalls ctx,
                        ce_result = Inr (runId, cc_manuallyEmittedState ctx) \<rparr>
      in case chunk_shape chunk of
           MessageChunk phase messageId delta \<Rightarrow>
             unchanged
               \<lparr> ce_events :=
                   (if messageId \<in> cc_startedMessages ctx then []
                    else [TEXT_MESSAGE_START messageId threadId runId])
                   @ [if phase = PhaseEnd then TEXT_MESSAGE_END messageId threadId runId
                      else TEXT_MESSAGE_CONTENT messageId delta threadId runId],
                 ce_startedMessages := insert messageId (cc_startedMessages ctx) \<rparr>
         | ToolCallChunk phase toolCallId delta \<Rightarrow>
             unchanged
               \<lparr> ce_events :=
                   (if toolCallId \<in> cc_startedToolCalls ctx then []
                    else [TOOL_CALL_START toolCallId threadId runId])
                   @ [if phase = PhaseEnd then TOOL_CALL_END toolCallId threadId runId
                      else TOOL_CALL_ARGS toolCallId delta threadId runId],
                 ce_startedToolCalls := insert toolCallId (cc_startedToolCalls ctx) \<rparr>
         | StateChunk payload \<Rightarrow>
             if cc_manuallyEmittedState ctx = Some payload then unchanged
             else unchanged
                    \<lparr> ce_events :=
                        [STATE_SNAPSHOT payload (RawValues runId payload) threadId runId] \<rparr>
         | UnknownChunk \<Rightarrow> unchanged)"

section \<open>Concrete inputs\<close>

text \<open>
  A small type of payloads for the \<open>unknown\<close> values, with \<open>JSON.stringify\<close> on it: a string
  (without characters that need escaping) is put between double quotes, \<open>undefined\<close> gives
  \<open>undefined\<close>, and a BigInt makes \<open>JSON.stringify\<close> throw a TypeError.
\<close>

datatype js_value = JsString string | JsBigInt int

definition stringify :: "js_value option \<Rightarrow> err + string option" where
  "stringify v =
     (case v of
        None \<Rightarrow> Inr None
      | Some (JsString t) \<Rightarrow> Inr (Some ([CHR 0x22] @ t @ [CHR 0x22]))
      | Some (JsBigInt n) \<Rightarrow> Inl ''TypeError: Do not know how to serialize a BigInt'')"

definition msgA :: "js_value LangGraphMessage" where
  "msgA = \<lparr> msg_id = ''a'', msg_type = Human, msg_content = ContentString ''hi'',
            msg_tool_calls = None, msg_tool_call_id = None \<rparr>"

definition msgB :: "js_value LangGraphMessage" where
  "msgB = \<lparr> msg_id = ''b'', msg_type = Ai, msg_content = ContentString ''hello'',
            msg_tool_calls = None, msg_tool_call_id = None \<rparr>"

definition valuesOld :: "js_value StateValues" where
  "valuesOld = \<lparr> sv_messages = Some [msgA], sv_others = [] \<rparr>"

definition valuesNew :: "js_value StateValues" where
  "valuesNew = \<lparr> sv_messages = Some [msgA, msgB], sv_others = [] \<rparr>"

definition checkpointOld :: "js_value ThreadState" where
  "checkpointOld = \<lparr> ts_values = Some valuesOld, ts_next = Some [''agent''], ts_tasks = None \<rparr>"

text \<open>
  The newest checkpoint, with its pending steps and the payload of the one interrupt of its
  second task (the first task has none).
\<close>

definition checkpointNew :: "string list \<Rightarrow> js_value \<Rightarrow> js_value ThreadState" where
  "checkpointNew pending payload =
     \<lparr> ts_values = Some valuesNew, ts_next = Some pending,
       ts_tasks = Some [\<lparr> task_id = ''t0'', task_name = ''plan'', task_interrupts = Some [] \<rparr>,
                        \<lparr> task_id = ''t1'', task_name = ''review'',
                          task_interrupts = Some [\<lparr> interrupt_value = Some payload \<rparr>] \<rparr>] \<rparr>"

text \<open>A checkpoint without tasks.\<close>

definition checkpointQuiet :: "string list \<Rightarrow> js_value ThreadState" where
  "checkpointQuiet pending =
     \<lparr> ts_values = Some valuesNew, ts_next = Some pending, ts_tasks = None \<rparr>"

text \<open>
  A backend that returns the given history (newest first) and runs (the same at every
  call), streams the given chunks and then closes the stream, and whose \<open>getState\<close> fails.
\<close>

definition sampleBackend ::
  "js_value ThreadState list option \<Rightarrow> HistoryRun list \<Rightarrow> js_value StreamChunk list
     \<Rightarrow> (js_value, js_value StreamChunk) HistoryClientInterface" where
  "sampleBackend history runs chunks =
     \<lparr> threads_getHistory = (\<lambda>threadId limit. Inr history),
       threads_getState = (\<lambda>threadId. Inl ''state unavailable''),
       runs_list = (\<lambda>n threadId. Inr (Some runs)),
       runs_joinStream =
         (\<lambda>threadId runId modes. Inr \<lparr> stream_chunks = chunks, stream_error = None \<rparr>) \<rparr>"

definition sampleImports :: "(js_value, string, js_value StreamChunk) Imports" where
  "sampleImports =
     \<lparr> transformMessages = (\<lambda>messages. Inr (map msg_id messages)),
       processStreamChunk = translateChunk,
       JSON_stringify = stringify,
       random36 = (\<lambda>n. if n = 0 then ''k3x9'' else ''q7w2'') \<rparr>"

definition sampleConfig :: "int \<Rightarrow> HistoryHydratingRunnerConfig" where
  "sampleConfig k =
     \<lparr> cfg_deploymentUrl = Some ''http://localhost:8123'', cfg_graphId = Some ''agent'',
       cfg_client = True, cfg_langsmithApiKey = None, cfg_historyLimit = Some k,
       cfg_clientTimeoutMs = None, cfg_debug = None \<rparr>"

text \<open>The runner that \<open>constructor (sampleConfig k)\<close> returns, for \<open>k\<close> up to 1000.\<close>

definition sampleRunner :: "int \<Rightarrow> js_value Runner" where
  "sampleRunner k =
     \<lparr> historyLimit = k, debug = False, customClient = True,
       frozenConfig = \<lparr> fc_deploymentUrl = ''http://localhost:8123'', fc_graphId = ''agent'',
                        fc_langsmithApiKey = None, fc_clientTimeoutMs = 1800000 \<rparr>,
       activeRun = None \<rparr>"

text \<open>The same runner when its field \<open>activeRun\<close> holds a state value.\<close>

definition carryingRunner :: "js_value StateValues \<Rightarrow> js_value Runner" where
  "carryingRunner carried = (sampleRunner 100)\<lparr>activeRun := Some carried\<rparr>"

text \<open>The same backend when \<open>getState\<close> returns the given thread state.\<close>

definition sampleBackendState ::
  "js_value ThreadState list option \<Rightarrow> HistoryRun list \<Rightarrow> js_value StreamChunk list
     \<Rightarrow> js_value ThreadState
     \<Rightarrow> (js_value, js_value StreamChunk) HistoryClientInterface" where
  "sampleBackendState history runs chunks final =
     (sampleBackend history runs chunks)\<lparr>threads_getState := (\<lambda>threadId. Inr final)\<rparr>"

definition finishedRun :: HistoryRun where
  "finishedRun = \<lparr> run_id = ''run-2'', run_status = Success \<rparr>"

definition runningRun :: HistoryRun where
  "runningRun = \<lparr> run_id = ''run-1'', run_status = Running \<rparr>"

definition pendingRun :: HistoryRun where
  "pendingRun = \<lparr> run_id = ''run-9'', run_status = Pending \<rparr>"

definition predicted :: "js_value StateValues" where
  "predicted = \<lparr> sv_messages = None, sv_others = [(''draft'', JsString ''v1'')] \<rparr>"

definition stateChunk :: "js_value StreamChunk" where
  "stateChunk = \<lparr> chunk_runId = None, chunk_shape = StateChunk predicted \<rparr>"

definition contentChunk :: "string \<Rightarrow> js_value StreamChunk" where
  "contentChunk delta =
     \<lparr> chunk_runId = None, chunk_shape = MessageChunk PhaseContent ''m1'' delta \<rparr>"

definition endChunk :: "js_value StreamChunk" where
  "endChunk = \<lparr> chunk_runId = None, chunk_shape = MessageChunk PhaseEnd ''m1'' [] \<rparr>"

definition argsChunk :: "js_value StreamChunk" where
  "argsChunk = \<lparr> chunk_runId = None, chunk_shape = ToolCallChunk PhaseContent ''c1'' ''{}'' \<rparr>"

section \<open>Properties of the message log\<close>

lemma ids_firstOccurrences: "msg_id ` set (firstOccurrences xs) = msg_id ` set xs"
proof (induction xs rule: firstOccurrences.induct)
  case 1
  show ?case by simp
next
  case (2 m ms)
  then show ?case by auto
qed

lemma distinct_firstOccurrences: "distinct (map msg_id (firstOccurrences xs))"
proof (induction xs rule: firstOccurrences.induct)
  case 1
  show ?case by simp
next
  case (2 m ms)
  have "msg_id m \<notin> msg_id ` set (filter (\<lambda>x. msg_id x \<noteq> msg_id m) ms)" by auto
  then show ?case using 2 by (simp add: ids_firstOccurrences)
qed

lemma firstOccurrences_append:
  "firstOccurrences (xs @ ys)
     = firstOccurrences xs @ firstOccurrences (filter (\<lambda>m. msg_id m \<notin> msg_id ` set xs) ys)"
proof (induction xs arbitrary: ys rule: firstOccurrences.induct)
  case 1
  show ?case by simp
next
  case (2 m ms)
  have "filter (\<lambda>x. msg_id x \<notin> msg_id ` set (filter (\<lambda>x. msg_id x \<noteq> msg_id m) ms))
          (filter (\<lambda>x. msg_id x \<noteq> msg_id m) ys)
        = filter (\<lambda>x. msg_id x \<notin> msg_id ` set (m # ms)) ys"
    by (auto intro: filter_cong)
  then show ?case using 2 [of "filter (\<lambda>x. msg_id x \<noteq> msg_id m) ys"] by simp
qed

lemma fold_addMessage:
  "fold addMessage ms (acc, seen)
     = (acc @ firstOccurrences (filter (\<lambda>m. msg_id m \<notin> seen) ms), seen \<union> msg_id ` set ms)"
proof (induction ms arbitrary: acc seen)
  case Nil
  show ?case by simp
next
  case (Cons m ms)
  show ?case
  proof (cases "msg_id m \<in> seen")
    case True
    then show ?thesis using Cons [of acc seen] by (auto simp: addMessage_def)
  next
    case False
    have "filter (\<lambda>x. msg_id x \<noteq> msg_id m) (filter (\<lambda>x. msg_id x \<notin> seen) ms)
          = filter (\<lambda>x. msg_id x \<notin> insert (msg_id m) seen) ms"
      by (auto intro: filter_cong)
    then show ?thesis
      using False Cons [of "acc @ [m]" "insert (msg_id m) seen"] by (simp add: addMessage_def)
  qed
qed

lemma addCheckpoint_eq:
  "addCheckpoint state acc = fold addMessage (checkpointMessages state) acc"
  by (simp add: addCheckpoint_def checkpointMessages_def split: option.splits)

lemma fold_addCheckpoint:
  "fold addCheckpoint cs (acc, seen)
     = (acc @ firstOccurrences (filter (\<lambda>m. msg_id m \<notin> seen) (concat (map checkpointMessages cs))),
        seen \<union> msg_id ` set (concat (map checkpointMessages cs)))"
proof (induction cs arbitrary: acc seen)
  case Nil
  show ?case by simp
next
  case (Cons c cs)
  let ?f = "\<lambda>m. msg_id m \<notin> seen"
  let ?xs = "checkpointMessages c"
  let ?ys = "concat (map checkpointMessages cs)"
  let ?seen1 = "seen \<union> msg_id ` set ?xs"
  have step: "filter (\<lambda>m. msg_id m \<notin> msg_id ` set (filter ?f ?xs)) (filter ?f ?ys)
              = filter (\<lambda>m. msg_id m \<notin> ?seen1) ?ys"
    by (auto intro: filter_cong)
  have one: "fold addCheckpoint (c # cs) (acc, seen)
        = fold addCheckpoint cs (acc @ firstOccurrences (filter ?f ?xs), ?seen1)"
    by (simp add: addCheckpoint_eq fold_addMessage)
  have rest: "fold addCheckpoint cs (acc @ firstOccurrences (filter ?f ?xs), ?seen1)
        = ((acc @ firstOccurrences (filter ?f ?xs))
             @ firstOccurrences (filter (\<lambda>m. msg_id m \<notin> ?seen1) ?ys),
           ?seen1 \<union> msg_id ` set ?ys)"
    by (rule Cons)
  have join: "firstOccurrences (filter ?f (?xs @ ?ys))
        = firstOccurrences (filter ?f ?xs) @ firstOccurrences (filter (\<lambda>m. msg_id m \<notin> ?seen1) ?ys)"
    unfolding filter_append firstOccurrences_append step ..
  have cat: "concat (map checkpointMessages (c # cs)) = ?xs @ ?ys"
    by simp
  show ?case
    unfolding one rest cat join by (simp add: Un_assoc image_Un)
qed

lemma extractMessages_firstOccurrences:
  "extractMessages history = firstOccurrences (chronological history)"
  by (simp add: extractMessages_def chronological_def fold_addCheckpoint)

text \<open>
  Claim C1. For every checkpoint sequence returned by the backend (newest-first), the log
  that the loop of lines 412-430 builds (reverse, then one walk with the set of seen ids)
  is the chronological sequence of all checkpoint messages with every message dropped
  whose id occurred earlier: it has no duplicate ids, the same ids as the history, and
  they stand in the order of their first chronological occurrence.
\<close>

theorem message_log_first_occurrences: "extractMessages history = firstOccurrences (chronological history)
    \<and> distinct (map msg_id (extractMessages history))
    \<and> msg_id ` set (extractMessages history) = msg_id ` set (chronological history)"
  by (simp add: extractMessages_firstOccurrences distinct_firstOccurrences ids_firstOccurrences)

theorem message_log_first_occurrences_witness:
  "extractMessages [checkpointNew [] (JsString ''ok''), checkpointOld] = [msgA, msgB]
   \<and> distinct (map msg_id (extractMessages [checkpointNew [] (JsString ''ok''), checkpointOld]))"
  using message_log_first_occurrences [of "[checkpointNew [] (JsString ''ok''), checkpointOld]"]
  by (simp add: chronological_def checkpointMessages_def checkpointNew_def checkpointOld_def
        valuesNew_def valuesOld_def msgA_def msgB_def)



lemmas log_defs = extractMessages_def addCheckpoint_def addMessage_def limitedMessages_def
  slice_def fetchLimit_def chronological_def checkpointMessages_def DEFAULT_HISTORY_LIMIT_def

lemmas sample_defs = sampleRunner_def sampleBackend_def sampleImports_def sampleConfig_def
  checkpointNew_def checkpointOld_def checkpointQuiet_def valuesNew_def valuesOld_def
  msgA_def msgB_def finishedRun_def runningRun_def pendingRun_def predicted_def
  stateChunk_def contentChunk_def endChunk_def argsChunk_def stringify_def
  sampleBackendState_def carryingRunner_def


section \<open>Properties of the orchestrator\<close>

lemmas sink_defs = subscriber_next_def subscriber_complete_def request_def randomId_def

text \<open>
  Claim C3. When the history fetch returns an absent or an empty checkpoint list, \<open>connect\<close>
  emits exactly RUN_STARTED, MESSAGES_SNAPSHOT with no messages and RUN_FINISHED, all
  three with the one generated run id \<open>hydration_<random>\<close>, then calls \<open>complete()\<close>; the
  only backend request made is the history fetch.
\<close>

theorem empty_history_fallback:
  assumes "threads_getHistory client threadId (fetchLimit r) = Inr None
         \<or> threads_getHistory client threadId (fetchLimit r) = Inr (Some [])"
  shows "emitted (connect r client im threadId)
           = [RUN_STARTED threadId (''hydration_'' @ random36 im 0),
              MESSAGES_SNAPSHOT [] threadId (''hydration_'' @ random36 im 0),
              RUN_FINISHED threadId (''hydration_'' @ random36 im 0)]
       \<and> completed (connect r client im threadId)
       \<and> calls (connect r client im threadId) = [GetHistory threadId (fetchLimit r)]"
  using assms
  by (auto simp: connect_def hydrate_def emitFallback_def initial_def sink_defs)

theorem empty_history_fallback_witness:
  "emitted (connect (sampleRunner 100) (sampleBackend None [] []) sampleImports ''t1'')
     = [RUN_STARTED ''t1'' ''hydration_k3x9'', MESSAGES_SNAPSHOT [] ''t1'' ''hydration_k3x9'',
        RUN_FINISHED ''t1'' ''hydration_k3x9'']
   \<and> emitted (connect (sampleRunner 100) (sampleBackend (Some []) [] []) sampleImports ''t1'')
     = [RUN_STARTED ''t1'' ''hydration_k3x9'', MESSAGES_SNAPSHOT [] ''t1'' ''hydration_k3x9'',
        RUN_FINISHED ''t1'' ''hydration_k3x9'']"
proof -
  have a: "threads_getHistory (sampleBackend None [] []) ''t1'' (fetchLimit (sampleRunner 100))
             = Inr None
         \<or> threads_getHistory (sampleBackend None [] []) ''t1'' (fetchLimit (sampleRunner 100))
             = Inr (Some [])"
    by (simp add: sampleBackend_def)
  have b: "threads_getHistory (sampleBackend (Some []) [] []) ''t1''
             (fetchLimit (sampleRunner 100)) = Inr None
         \<or> threads_getHistory (sampleBackend (Some []) [] []) ''t1''
             (fetchLimit (sampleRunner 100)) = Inr (Some [])"
    by (simp add: sampleBackend_def)
  show ?thesis
    using empty_history_fallback [OF a, of sampleImports] empty_history_fallback [OF b, of sampleImports]
    by (simp add: sampleImports_def)
qed


lemma latestState_hd: "fetched \<noteq> [] \<Longrightarrow> rev fetched ! (length fetched - Suc 0) = hd fetched"
  by (cases fetched) (simp_all add: nth_append)

lemma emitInterrupt_eq:
  "emitInterrupt im threadId runId state s =
     (case findInterrupt state of
        None \<Rightarrow> (None, s)
      | Some iv \<Rightarrow>
          (case JSON_stringify im iv of
             Inl e \<Rightarrow> (Some e, s)
           | Inr str \<Rightarrow>
               (None, subscriber_next
                        (CUSTOM ''on_interrupt'' str (RawInterrupt runId iv) threadId runId) s)))"
proof (cases "interruptedTask state")
  case None
  then show ?thesis by (simp add: emitInterrupt_def findInterrupt_def)
next
  case (Some task)
  then have "hasInterrupts task"
    by (auto simp: interruptedTask_def find_Some_iff split: option.splits)
  then obtain i "is" where "task_interrupts task = Some (i # is)"
    by (cases "task_interrupts task"; cases "the (task_interrupts task)")
       (auto simp: hasInterrupts_def)
  then show ?thesis using Some by (simp add: emitInterrupt_def findInterrupt_def Let_def)
qed

lemma processOne_fields:
  assumes "processOne im threadId chunk (ls, s) = (ls', s')"
  shows "completed s' = completed s \<and> calls s' = calls s \<and> randoms s' = randoms s
       \<and> runnerActiveRun s' = runnerActiveRun s \<and> (\<exists>streamed. emitted s' = emitted s @ streamed)"
  using assms by (auto simp: processOne_def Let_def split: sum.splits prod.splits)

lemma fold_processOne_fields:
  assumes "fold (processOne im threadId) chunks (ls, s) = (ls', s')"
  shows "completed s' = completed s \<and> calls s' = calls s \<and> randoms s' = randoms s
       \<and> runnerActiveRun s' = runnerActiveRun s \<and> (\<exists>streamed. emitted s' = emitted s @ streamed)"
  using assms
proof (induction chunks arbitrary: ls s)
  case Nil
  then show ?case by simp
next
  case (Cons c cs)
  obtain ls1 s1 where one: "processOne im threadId c (ls, s) = (ls1, s1)"
    by (cases "processOne im threadId c (ls, s)")
  from Cons.prems one have "fold (processOne im threadId) cs (ls1, s1) = (ls', s')" by simp
  from Cons.IH [OF this] processOne_fields [OF one] show ?case by auto
qed


lemma determineRunId_eq:
  "determineRunId client im threadId s =
     ((case runs_list client 0 threadId of
         Inr (Some (run # rest)) \<Rightarrow> run_id run
       | _ \<Rightarrow> ''hydration_'' @ random36 im (randoms s)),
      (case runs_list client 0 threadId of
         Inr (Some (run # rest)) \<Rightarrow> request (RunsList threadId) s
       | _ \<Rightarrow> (request (RunsList threadId) s)\<lparr>randoms := Suc (randoms s)\<rparr>))"
  by (simp add: determineRunId_def Let_def sink_defs split: sum.splits option.splits list.splits)

lemma determineRunId_fields:
  assumes "determineRunId client im threadId s = (runId, s1)"
  shows "emitted s1 = emitted s \<and> completed s1 = completed s
       \<and> calls s1 = calls s @ [RunsList threadId] \<and> runnerActiveRun s1 = runnerActiveRun s
       \<and> runId = (case runs_list client 0 threadId of
                    Inr (Some (run # rest)) \<Rightarrow> run_id run
                  | _ \<Rightarrow> ''hydration_'' @ random36 im (randoms s))"
  using assms unfolding determineRunId_eq
  by (auto simp: sink_defs split: sum.splits option.splits list.splits)

lemma emitSnapshot_ok:
  assumes ne: "fetched \<noteq> []"
    and tm: "transformMessages im (limitedMessages r (extractMessages fetched)) = Inr tms"
    and js: "\<And>iv. findInterrupt (hd fetched) = Some iv \<Longrightarrow> JSON_stringify im iv = Inr (str iv)"
    and rid: "runId = (case runs_list client 0 threadId of
                        Inr (Some (run # rest)) \<Rightarrow> run_id run
                      | _ \<Rightarrow> ''hydration_'' @ random36 im (randoms s))"
  shows "\<exists>s5. emitSnapshot r client im threadId fetched s = (Inr (runId, hd fetched), s5)
          \<and> emitted s5 = emitted s
              @ [RUN_STARTED threadId runId, MESSAGES_SNAPSHOT tms threadId runId]
              @ (case ts_values (hd fetched) of
                   None \<Rightarrow> []
                 | Some vals \<Rightarrow> [STATE_SNAPSHOT vals (RawValues runId vals) threadId runId])
              @ (case findInterrupt (hd fetched) of
                   None \<Rightarrow> []
                 | Some iv \<Rightarrow>
                     [CUSTOM ''on_interrupt'' (str iv) (RawInterrupt runId iv) threadId runId])
          \<and> calls s5 = calls s @ [RunsList threadId]
          \<and> completed s5 = completed s
          \<and> runnerActiveRun s5 = runnerActiveRun s"
proof -
  obtain rid1 s1 where d1: "determineRunId client im threadId s = (rid1, s1)"
    by (cases "determineRunId client im threadId s")
  have "rid1 = runId" using determineRunId_fields [OF d1] rid by simp
  with d1 have d: "determineRunId client im threadId s = (runId, s1)" by simp
  have f: "emitted s1 = emitted s" "completed s1 = completed s"
    "calls s1 = calls s @ [RunsList threadId]" "runnerActiveRun s1 = runnerActiveRun s"
    using determineRunId_fields [OF d] by simp_all
  show ?thesis
  proof (cases "findInterrupt (hd fetched)")
    case None
    then show ?thesis
      using ne tm d f
      by (simp add: emitSnapshot_def Let_def latestState_hd emitInterrupt_eq subscriber_next_def
               split: option.splits)
  next
    case (Some iv)
    then show ?thesis
      using ne tm d f js [OF Some]
      by (simp add: emitSnapshot_def Let_def latestState_hd emitInterrupt_eq subscriber_next_def
               split: option.splits)
  qed
qed



lemma processOne_frame:
  "\<exists>ls' streamed. \<forall>s. processOne im threadId chunk (ls, s)
                          = (ls', s\<lparr>emitted := emitted s @ streamed\<rparr>)"
proof -
  let ?eff = "processStreamChunk im chunk
                \<lparr> cc_threadId = threadId, cc_runId = currentRunId ls,
                  cc_startedMessages = startedMessages ls,
                  cc_startedToolCalls = startedToolCalls ls,
                  cc_manuallyEmittedState = manuallyEmittedState ls \<rparr>"
  show ?thesis
  proof (cases "ce_result ?eff")
    case (Inl e)
    then have "\<forall>s. processOne im threadId chunk (ls, s)
                 = (fst (processOne im threadId chunk (ls, undefined)),
                    s\<lparr>emitted := emitted s @ ce_events ?eff\<rparr>)"
      by (simp add: processOne_def Let_def)
    then show ?thesis by blast
  next
    case (Inr p)
    then have "\<forall>s. processOne im threadId chunk (ls, s)
                 = (fst (processOne im threadId chunk (ls, undefined)),
                    s\<lparr>emitted := emitted s @ ce_events ?eff\<rparr>)"
      by (cases p) (simp add: processOne_def Let_def)
    then show ?thesis by blast
  qed
qed

lemma fold_processOne_frame:
  "\<exists>ls' streamed. \<forall>s. fold (processOne im threadId) chunks (ls, s)
                          = (ls', s\<lparr>emitted := emitted s @ streamed\<rparr>)"
proof (induction chunks arbitrary: ls)
  case Nil
  have "\<forall>s. fold (processOne im threadId) [] (ls, s) = (ls, s\<lparr>emitted := emitted s @ []\<rparr>)"
    by simp
  then show ?case by blast
next
  case (Cons c cs)
  obtain ls1 ev1 where one:
    "\<And>s. processOne im threadId c (ls, s) = (ls1, s\<lparr>emitted := emitted s @ ev1\<rparr>)"
    using processOne_frame [of im threadId c ls] by blast
  obtain ls2 ev2 where rest:
    "\<And>s. fold (processOne im threadId) cs (ls1, s) = (ls2, s\<lparr>emitted := emitted s @ ev2\<rparr>)"
    using Cons [of ls1] by blast
  have "\<forall>s. fold (processOne im threadId) (c # cs) (ls, s)
             = (ls2, s\<lparr>emitted := emitted s @ (ev1 @ ev2)\<rparr>)"
    by (simp add: one rest)
  then show ?case by blast
qed

lemma fold_processOne_transfer:
  assumes "emitted s = emitted t"
  shows "emitted (snd (fold (processOne im threadId) chunks (ls, s)))
           = emitted (snd (fold (processOne im threadId) chunks (ls, t)))
       \<and> fst (fold (processOne im threadId) chunks (ls, s))
           = fst (fold (processOne im threadId) chunks (ls, t))"
proof -
  obtain ls' streamed where
    "\<And>u. fold (processOne im threadId) chunks (ls, u) = (ls', u\<lparr>emitted := emitted u @ streamed\<rparr>)"
    using fold_processOne_frame [of im threadId chunks ls] by blast
  then show ?thesis using assms by simp
qed

text \<open>joinAndProcessStream\<close>

lemma join_failed:
  assumes "runs_joinStream client threadId runId streamModes = Inl e"
  shows "joinAndProcessStream client im threadId runId s
           = (Some e, subscriber_next (RUN_FINISHED threadId runId)
                        (request (JoinStream threadId runId streamModes) s))"
  using assms by (simp add: joinAndProcessStream_def Let_def)

lemma join_streamed:
  assumes js: "runs_joinStream client threadId runId streamModes = Inr stream"
  shows "\<exists>tail fin more.
           emitted (snd (joinAndProcessStream client im threadId runId s))
             = emitted (snd (fold (processOne im threadId) (stream_chunks stream)
                               (loopStart runId (runnerActiveRun s), s)))
               @ tail @ [RUN_FINISHED threadId fin]
         \<and> (tail = [] \<or> (\<exists>str raw. tail = [CUSTOM ''on_interrupt'' str raw threadId fin]))
         \<and> calls (snd (joinAndProcessStream client im threadId runId s))
             = calls s @ JoinStream threadId runId streamModes # more
         \<and> completed (snd (joinAndProcessStream client im threadId runId s)) = completed s"
proof -
  let ?s1 = "request (JoinStream threadId runId streamModes) s"
  obtain ls s2 where f: "fold (processOne im threadId) (stream_chunks stream)
                           (loopStart runId (runnerActiveRun ?s1), ?s1) = (ls, s2)"
    by (cases "fold (processOne im threadId) (stream_chunks stream)
                 (loopStart runId (runnerActiveRun ?s1), ?s1)")
  have ra: "runnerActiveRun ?s1 = runnerActiveRun s" by (simp add: request_def)
  have em: "emitted ?s1 = emitted s" by (simp add: request_def)
  have tr: "emitted s2 = emitted (snd (fold (processOne im threadId) (stream_chunks stream)
                               (loopStart runId (runnerActiveRun s), s)))"
    using fold_processOne_transfer [OF em, of im threadId "stream_chunks stream"
            "loopStart runId (runnerActiveRun s)"] f ra by simp
  note ff = fold_processOne_fields [OF f]
  show ?thesis
  proof (cases "stream_error stream")
    case (Some e)
    then show ?thesis
      using js f tr ff
      by (simp add: joinAndProcessStream_def Let_def subscriber_next_def request_def)
  next
    case None
    show ?thesis
    proof (cases "threads_getState client threadId")
      case (Inl e)
      then show ?thesis
        using js f tr ff None
        by (simp add: joinAndProcessStream_def Let_def subscriber_next_def request_def)
    next
      case (Inr st)
      then show ?thesis
        using js f tr ff None
        by (auto simp: joinAndProcessStream_def Let_def subscriber_next_def request_def
                 emitInterrupt_eq split: option.splits sum.splits)
    qed
  qed
qed


lemma findActiveRun_eq:
  "findActiveRun client threadId latest s =
     (if isThreadBusy latest
      then ((case runs_list client 1 threadId of
               Inr (Some runs) \<Rightarrow> find isActive runs
             | _ \<Rightarrow> None), request (RunsList threadId) s)
      else (None, s))"
  by (simp add: findActiveRun_def split: sum.splits option.splits)

lemma connect_snapshot_ok:
  assumes "threads_getHistory client threadId (fetchLimit r) = Inr (Some fetched)"
    and "fetched \<noteq> []"
    and "emitSnapshot r client im threadId fetched
           (request (GetHistory threadId (fetchLimit r)) (initial r)) = (Inr (runId, latest), s5)"
  shows "connect r client im threadId = finishRun client im threadId runId latest s5"
  using assms by (simp add: connect_def hydrate_def hydrateHistory_def Let_def)

lemma finishRun_appends:
  "\<exists>rest. emitted (finishRun client im threadId runId latest s) = emitted s @ rest"
proof (cases "findActiveRun client threadId latest s")
  case (Pair found s1)
  have e1: "emitted s1 = emitted s"
    using Pair by (auto simp: findActiveRun_eq request_def split: if_splits)
  show ?thesis
  proof (cases found)
    case None
    then show ?thesis using Pair e1
      by (simp add: finishRun_def subscriber_next_def subscriber_complete_def)
  next
    case (Some run)
    show ?thesis
    proof (cases "runs_joinStream client threadId (run_id run) streamModes")
      case (Inl e)
      then show ?thesis using Pair Some e1
        by (simp add: finishRun_def join_failed subscriber_next_def subscriber_complete_def
                 request_def)
    next
      case (Inr stream)
      obtain ls s2 where f: "fold (processOne im threadId) (stream_chunks stream)
                               (loopStart (run_id run) (runnerActiveRun s1), s1) = (ls, s2)"
        by (cases "fold (processOne im threadId) (stream_chunks stream)
                     (loopStart (run_id run) (runnerActiveRun s1), s1)")
      from fold_processOne_fields [OF f] obtain streamed where
        st: "emitted s2 = emitted s1 @ streamed" by blast
      from join_streamed [OF Inr, of im s1] f st e1 show ?thesis
        using Pair Some by (auto simp: finishRun_def subscriber_complete_def)
    qed
  qed
qed

lemmas run_defs = connect_def hydrate_def hydrateHistory_def finishRun_def findActiveRun_def
  joinAndProcessStream_def processOne_def loopStart_def translateChunk_def streamModes_def
  emitFallback_def runnerAfter_def

lemmas flow_defs = emitSnapshot_def determineRunId_def emitInterrupt_def interruptedTask_def
  hasInterrupts_def findInterrupt_def isThreadBusy_def isActive_def initial_def Let_def

text \<open>
  The snapshot events of a non-empty history when neither \<open>transformMessages\<close> nor
  \<open>JSON.stringify\<close> throws: RUN_STARTED, MESSAGES_SNAPSHOT with the transformed log,
  STATE_SNAPSHOT when the latest checkpoint has \<open>values\<close>, the interrupt event when the
  inspection finds an interrupt.
\<close>

lemma snapshot_events_serialised:
  assumes gh: "threads_getHistory client threadId (fetchLimit r) = Inr (Some fetched)"
    and ne: "fetched \<noteq> []"
    and tm: "transformMessages im (limitedMessages r (extractMessages fetched)) = Inr tms"
    and js: "\<And>iv. findInterrupt (hd fetched) = Some iv \<Longrightarrow> JSON_stringify im iv = Inr (str iv)"
    and rid: "runId = (case runs_list client 0 threadId of
                        Inr (Some (run # rest)) \<Rightarrow> run_id run
                      | _ \<Rightarrow> ''hydration_'' @ random36 im 0)"
  shows "\<exists>rest. emitted (connect r client im threadId)
           = [RUN_STARTED threadId runId, MESSAGES_SNAPSHOT tms threadId runId]
             @ (case ts_values (hd fetched) of
                  None \<Rightarrow> []
                | Some vals \<Rightarrow> [STATE_SNAPSHOT vals (RawValues runId vals) threadId runId])
             @ (case findInterrupt (hd fetched) of
                  None \<Rightarrow> []
                | Some iv \<Rightarrow>
                    [CUSTOM ''on_interrupt'' (str iv) (RawInterrupt runId iv) threadId runId])
             @ rest"
proof -
  let ?s0 = "request (GetHistory threadId (fetchLimit r)) (initial r)"
  have r0: "randoms ?s0 = 0" and e0: "emitted ?s0 = []"
    by (simp_all add: request_def initial_def)
  have rid0: "runId = (case runs_list client 0 threadId of
                         Inr (Some (run # rest)) \<Rightarrow> run_id run
                       | _ \<Rightarrow> ''hydration_'' @ random36 im (randoms ?s0))"
    unfolding r0 by (rule rid)
  from emitSnapshot_ok [OF ne tm js rid0]
  obtain s5 where
    snap: "emitSnapshot r client im threadId fetched ?s0 = (Inr (runId, hd fetched), s5)"
    and ev: "emitted s5 = emitted ?s0
              @ [RUN_STARTED threadId runId, MESSAGES_SNAPSHOT tms threadId runId]
              @ (case ts_values (hd fetched) of
                   None \<Rightarrow> []
                 | Some vals \<Rightarrow> [STATE_SNAPSHOT vals (RawValues runId vals) threadId runId])
              @ (case findInterrupt (hd fetched) of
                   None \<Rightarrow> []
                 | Some iv \<Rightarrow>
                     [CUSTOM ''on_interrupt'' (str iv) (RawInterrupt runId iv) threadId runId])"
    by blast
  have c: "connect r client im threadId = finishRun client im threadId runId (hd fetched) s5"
    by (rule connect_snapshot_ok [OF gh ne snap])
  obtain rest where "emitted (finishRun client im threadId runId (hd fetched) s5)
                       = emitted s5 @ rest"
    using finishRun_appends by blast
  then show ?thesis unfolding c ev e0 by simp
qed





lemma find_first:
  assumes "\<forall>x \<in> set before. \<not> P x" and "P y"
  shows "find P (before @ y # after) = Some y"
  using assms by (induction before) simp_all

lemma find_none: "(\<forall>x \<in> set xs. \<not> P x) \<Longrightarrow> find P xs = None"
  by (induction xs) simp_all

lemma hasInterrupts_iff:
  "hasInterrupts t \<longleftrightarrow> \<not> (task_interrupts t = None \<or> task_interrupts t = Some [])"
  by (cases "task_interrupts t") (auto simp: hasInterrupts_def)

lemma findInterrupt_first:
  assumes "ts_tasks state = Some (before @ task # after)"
    and "\<forall>t \<in> set before. task_interrupts t = None \<or> task_interrupts t = Some []"
    and "task_interrupts task = Some (i # is)"
  shows "findInterrupt state = Some (interrupt_value i)"
proof -
  have "find hasInterrupts (before @ task # after) = Some task"
    using assms(2,3) by (intro find_first) (auto simp: hasInterrupts_iff)
  then show ?thesis using assms(1,3) by (simp add: findInterrupt_def interruptedTask_def)
qed

lemma findInterrupt_none:
  assumes "ts_tasks state = None
         \<or> (\<exists>tasks. ts_tasks state = Some tasks
               \<and> (\<forall>t \<in> set tasks. task_interrupts t = None \<or> task_interrupts t = Some []))"
  shows "findInterrupt state = None"
proof (cases "ts_tasks state")
  case None
  then show ?thesis by (simp add: findInterrupt_def interruptedTask_def)
next
  case (Some tasks)
  with assms have "\<forall>t \<in> set tasks. \<not> hasInterrupts t" by (auto simp: hasInterrupts_iff)
  then have "find hasInterrupts tasks = None" by (rule find_none)
  then show ?thesis using Some by (simp add: findInterrupt_def interruptedTask_def)
qed

lemma finishRun_idle:
  assumes "(if isThreadBusy latest
            then (case runs_list client 1 threadId of
                    Inr (Some runs) \<Rightarrow> find isActive runs
                  | _ \<Rightarrow> None)
            else None) = None"
  shows "emitted (finishRun client im threadId runId latest s)
           = emitted s @ [RUN_FINISHED threadId runId]"
  using assms
  by (auto simp: finishRun_def findActiveRun_eq subscriber_next_def subscriber_complete_def
        request_def split: if_splits)

text \<open>
  Claim C6, as amended. Among the snapshot events of \<open>connect\<close> (state \<open>s5\<close>, before the
  active-run check): when the latest checkpoint's tasks are \<open>before @ task # after\<close>, no
  task of \<open>before\<close> has an interrupt, \<open>task\<close> has the interrupts \<open>i # is\<close> and \<open>JSON.stringify\<close>
  serialises the value of \<open>i\<close>, exactly one interrupt event is emitted and its payload is
  the value of \<open>i\<close>; when no task has an interrupt, none is emitted. When no active run is
  joined, these are all the interrupt events of the whole \<open>connect\<close>.
\<close>

theorem snapshot_interrupt_event:
  assumes gh: "threads_getHistory client threadId (fetchLimit r) = Inr (Some fetched)"
    and ne: "fetched \<noteq> []"
    and tm: "transformMessages im (limitedMessages r (extractMessages fetched)) = Inr tms"
    and rid: "runId = (case runs_list client 0 threadId of
                        Inr (Some (run # rest)) \<Rightarrow> run_id run
                      | _ \<Rightarrow> ''hydration_'' @ random36 im 0)"
    and act: "active = (if isThreadBusy (hd fetched)
                        then (case runs_list client 1 threadId of
                                Inr (Some runs) \<Rightarrow> find isActive runs
                              | _ \<Rightarrow> None)
                        else None)"
  shows "(\<forall>before task after i is str.
            ts_tasks (hd fetched) = Some (before @ task # after)
              \<and> (\<forall>t \<in> set before. task_interrupts t = None \<or> task_interrupts t = Some [])
              \<and> task_interrupts task = Some (i # is)
              \<and> JSON_stringify im (interrupt_value i) = Inr str
            \<longrightarrow> (\<exists>s5. emitSnapshot r client im threadId fetched
                         (request (GetHistory threadId (fetchLimit r)) (initial r))
                       = (Inr (runId, hd fetched), s5)
                     \<and> connect r client im threadId
                         = finishRun client im threadId runId (hd fetched) s5
                     \<and> filter isInterruptEvent (emitted s5)
                         = [CUSTOM ''on_interrupt'' str
                              (RawInterrupt runId (interrupt_value i)) threadId runId]
                     \<and> (active = None \<longrightarrow>
                          filter isInterruptEvent (emitted (connect r client im threadId))
                            = [CUSTOM ''on_interrupt'' str
                                 (RawInterrupt runId (interrupt_value i)) threadId runId])))
       \<and> (ts_tasks (hd fetched) = None
            \<or> (\<exists>tasks. ts_tasks (hd fetched) = Some tasks
                  \<and> (\<forall>t \<in> set tasks. task_interrupts t = None \<or> task_interrupts t = Some []))
            \<longrightarrow> (\<exists>s5. emitSnapshot r client im threadId fetched
                         (request (GetHistory threadId (fetchLimit r)) (initial r))
                       = (Inr (runId, hd fetched), s5)
                     \<and> connect r client im threadId
                         = finishRun client im threadId runId (hd fetched) s5
                     \<and> filter isInterruptEvent (emitted s5) = []
                     \<and> (active = None \<longrightarrow>
                          filter isInterruptEvent (emitted (connect r client im threadId))
                            = [])))"
proof -
  let ?s0 = "request (GetHistory threadId (fetchLimit r)) (initial r)"
  have r0: "randoms ?s0 = 0" and e0: "emitted ?s0 = []"
    by (simp_all add: request_def initial_def)
  have rid0: "runId = (case runs_list client 0 threadId of
                         Inr (Some (run # rest)) \<Rightarrow> run_id run
                       | _ \<Rightarrow> ''hydration_'' @ random36 im (randoms ?s0))"
    unfolding r0 by (rule rid)
  have one: "\<exists>s5. emitSnapshot r client im threadId fetched ?s0 = (Inr (runId, hd fetched), s5)
                \<and> connect r client im threadId
                    = finishRun client im threadId runId (hd fetched) s5
                \<and> filter isInterruptEvent (emitted s5)
                    = [CUSTOM ''on_interrupt'' str
                         (RawInterrupt runId (interrupt_value i)) threadId runId]
                \<and> (active = None \<longrightarrow>
                     filter isInterruptEvent (emitted (connect r client im threadId))
                       = [CUSTOM ''on_interrupt'' str
                            (RawInterrupt runId (interrupt_value i)) threadId runId])"
    if t: "ts_tasks (hd fetched) = Some (before @ task # after)"
      and b: "\<forall>t \<in> set before. task_interrupts t = None \<or> task_interrupts t = Some []"
      and f: "task_interrupts task = Some (i # is)"
      and j: "JSON_stringify im (interrupt_value i) = Inr str"
    for before task after i "is" str
  proof -
    have fi: "findInterrupt (hd fetched) = Some (interrupt_value i)"
      by (rule findInterrupt_first [OF t b f])
    have js: "\<And>iv. findInterrupt (hd fetched) = Some iv \<Longrightarrow> JSON_stringify im iv = Inr str"
      using fi j by simp
    from emitSnapshot_ok [OF ne tm js rid0] obtain s5 where
      snap: "emitSnapshot r client im threadId fetched ?s0 = (Inr (runId, hd fetched), s5)"
      and ev: "emitted s5 = emitted ?s0
                @ [RUN_STARTED threadId runId, MESSAGES_SNAPSHOT tms threadId runId]
                @ (case ts_values (hd fetched) of
                     None \<Rightarrow> []
                   | Some vals \<Rightarrow> [STATE_SNAPSHOT vals (RawValues runId vals) threadId runId])
                @ (case findInterrupt (hd fetched) of
                     None \<Rightarrow> []
                   | Some iv \<Rightarrow>
                       [CUSTOM ''on_interrupt'' str (RawInterrupt runId iv) threadId runId])"
      by blast
    have cnt: "filter isInterruptEvent (emitted s5)
            = [CUSTOM ''on_interrupt'' str (RawInterrupt runId (interrupt_value i)) threadId runId]"
      unfolding ev e0 fi by (simp add: isInterruptEvent_def split: option.splits)
    have con: "connect r client im threadId
                 = finishRun client im threadId runId (hd fetched) s5"
      by (rule connect_snapshot_ok [OF gh ne snap])
    have "filter isInterruptEvent (emitted (connect r client im threadId))
            = [CUSTOM ''on_interrupt'' str (RawInterrupt runId (interrupt_value i)) threadId runId]"
      if "active = None"
      unfolding con using finishRun_idle [of "hd fetched" client threadId im runId s5] that act cnt
      by (simp add: isInterruptEvent_def)
    then show ?thesis using snap con cnt by blast
  qed
  have zero: "\<exists>s5. emitSnapshot r client im threadId fetched ?s0 = (Inr (runId, hd fetched), s5)
                \<and> connect r client im threadId
                    = finishRun client im threadId runId (hd fetched) s5
                \<and> filter isInterruptEvent (emitted s5) = []
                \<and> (active = None \<longrightarrow>
                     filter isInterruptEvent (emitted (connect r client im threadId)) = [])"
    if n: "ts_tasks (hd fetched) = None
         \<or> (\<exists>tasks. ts_tasks (hd fetched) = Some tasks
               \<and> (\<forall>t \<in> set tasks. task_interrupts t = None \<or> task_interrupts t = Some []))"
  proof -
    have fi: "findInterrupt (hd fetched) = None"
      by (rule findInterrupt_none [OF n])
    have js: "\<And>iv. findInterrupt (hd fetched) = Some iv \<Longrightarrow> JSON_stringify im iv = Inr None"
      using fi by simp
    from emitSnapshot_ok [OF ne tm js rid0] obtain s5 where
      snap: "emitSnapshot r client im threadId fetched ?s0 = (Inr (runId, hd fetched), s5)"
      and ev: "emitted s5 = emitted ?s0
                @ [RUN_STARTED threadId runId, MESSAGES_SNAPSHOT tms threadId runId]
                @ (case ts_values (hd fetched) of
                     None \<Rightarrow> []
                   | Some vals \<Rightarrow> [STATE_SNAPSHOT vals (RawValues runId vals) threadId runId])
                @ (case findInterrupt (hd fetched) of
                     None \<Rightarrow> []
                   | Some iv \<Rightarrow>
                       [CUSTOM ''on_interrupt'' None (RawInterrupt runId iv) threadId runId])"
      by blast
    have cnt: "filter isInterruptEvent (emitted s5) = []"
      unfolding ev e0 fi by (simp add: isInterruptEvent_def split: option.splits)
    have con: "connect r client im threadId
                 = finishRun client im threadId runId (hd fetched) s5"
      by (rule connect_snapshot_ok [OF gh ne snap])
    have "filter isInterruptEvent (emitted (connect r client im threadId)) = []"
      if "active = None"
      unfolding con using finishRun_idle [of "hd fetched" client threadId im runId s5] that act cnt
      by (simp add: isInterruptEvent_def)
    then show ?thesis using snap con cnt by blast
  qed
  show ?thesis using one zero by blast
qed

theorem snapshot_interrupt_event_witness:
  "filter isInterruptEvent
     (emitted (connect (sampleRunner 100)
                 (sampleBackend (Some [checkpointNew [] (JsString ''ok''), checkpointOld])
                    [finishedRun] [])
                 sampleImports ''t1''))
     = [CUSTOM ''on_interrupt'' (Some ([CHR 0x22] @ ''ok'' @ [CHR 0x22]))
          (RawInterrupt ''run-2'' (Some (JsString ''ok''))) ''t1'' ''run-2'']
   \<and> filter isInterruptEvent
     (emitted (connect (sampleRunner 100)
                 (sampleBackend (Some [checkpointQuiet []]) [finishedRun] [])
                 sampleImports ''t1''))
     = []"
proof -
  let ?r = "sampleRunner 100"
  let ?h = "[checkpointNew [] (JsString ''ok''), checkpointOld]"
  let ?c = "sampleBackend (Some ?h) [finishedRun] []"
  let ?q = "[checkpointQuiet []]"
  let ?d = "sampleBackend (Some ?q) [finishedRun] []"
  have gh: "threads_getHistory ?c ''t1'' (fetchLimit ?r) = Inr (Some ?h)"
    by (simp add: sampleBackend_def)
  have gq: "threads_getHistory ?d ''t1'' (fetchLimit ?r) = Inr (Some ?q)"
    by (simp add: sampleBackend_def)
  have tm: "transformMessages sampleImports (limitedMessages ?r (extractMessages ?h))
              = Inr [''a'', ''b'']"
    by (simp add: log_defs sample_defs)
  have tq: "transformMessages sampleImports (limitedMessages ?r (extractMessages ?q))
              = Inr [''a'', ''b'']"
    by (simp add: log_defs sample_defs)
  have rid: "''run-2'' = (case runs_list ?c 0 ''t1'' of
                           Inr (Some (run # rest)) \<Rightarrow> run_id run
                         | _ \<Rightarrow> ''hydration_'' @ random36 sampleImports 0)"
    by (simp add: sampleBackend_def finishedRun_def)
  have riq: "''run-2'' = (case runs_list ?d 0 ''t1'' of
                           Inr (Some (run # rest)) \<Rightarrow> run_id run
                         | _ \<Rightarrow> ''hydration_'' @ random36 sampleImports 0)"
    by (simp add: sampleBackend_def finishedRun_def)
  have tasks: "ts_tasks (hd ?h)
                 = Some ([\<lparr> task_id = ''t0'', task_name = ''plan'', task_interrupts = Some [] \<rparr>]
                         @ \<lparr> task_id = ''t1'', task_name = ''review'',
                             task_interrupts = Some [\<lparr> interrupt_value = Some (JsString ''ok'') \<rparr>] \<rparr>
                         # [])
               \<and> (\<forall>t \<in> set [\<lparr> task_id = ''t0'', task_name = ''plan'',
                                task_interrupts = Some ([] :: js_value Interrupt list) \<rparr>].
                     task_interrupts t = None \<or> task_interrupts t = Some [])
               \<and> task_interrupts \<lparr> task_id = ''t1'', task_name = ''review'',
                     task_interrupts = Some [\<lparr> interrupt_value = Some (JsString ''ok'') \<rparr>] \<rparr>
                   = Some (\<lparr> interrupt_value = Some (JsString ''ok'') \<rparr> # [])
               \<and> JSON_stringify sampleImports
                     (interrupt_value \<lparr> interrupt_value = Some (JsString ''ok'') \<rparr>)
                   = Inr (Some ([CHR 0x22] @ ''ok'' @ [CHR 0x22]))"
    by (simp add: checkpointNew_def sampleImports_def stringify_def)
  have quiet: "ts_tasks (hd ?q) = None
             \<or> (\<exists>tasks. ts_tasks (hd ?q) = Some tasks
                   \<and> (\<forall>t \<in> set tasks. task_interrupts t = None \<or> task_interrupts t = Some []))"
    by (simp add: checkpointQuiet_def)
  have ne: "?h \<noteq> []" and nq: "?q \<noteq> []" by simp_all
  have act: "None = (if isThreadBusy (hd ?h)
                     then (case runs_list ?c 1 ''t1'' of
                             Inr (Some runs) \<Rightarrow> find isActive runs
                           | _ \<Rightarrow> None)
                     else None)"
    by (simp add: isThreadBusy_def checkpointNew_def)
  have acq: "None = (if isThreadBusy (hd ?q)
                     then (case runs_list ?d 1 ''t1'' of
                             Inr (Some runs) \<Rightarrow> find isActive runs
                           | _ \<Rightarrow> None)
                     else None)"
    by (simp add: isThreadBusy_def checkpointQuiet_def)
  from snapshot_interrupt_event [OF gh ne tm rid act, THEN conjunct1, rule_format, OF tasks]
  have one: "filter isInterruptEvent (emitted (connect ?r ?c sampleImports ''t1''))
             = [CUSTOM ''on_interrupt'' (Some ([CHR 0x22] @ ''ok'' @ [CHR 0x22]))
                  (RawInterrupt ''run-2'' (Some (JsString ''ok''))) ''t1'' ''run-2'']"
    by auto
  from snapshot_interrupt_event [OF gq nq tq riq acq, THEN conjunct2, rule_format, OF quiet]
  have two: "filter isInterruptEvent (emitted (connect ?r ?d sampleImports ''t1'')) = []"
    by auto
  show ?thesis using one two by simp
qed

text \<open>
  Claim C6 as stated counts the interrupt events of the whole hydration. When an active
  run is joined, the check of the final thread state after the stream (lines 660-691)
  emits an interrupt event of its own: here one although no task of the latest checkpoint
  has an interrupt, and a second one when a task of the latest checkpoint has one.
\<close>

theorem join_adds_final_interrupt:
  "findInterrupt (checkpointQuiet [''agent'']) = None
   \<and> emitted (connect (sampleRunner 100)
                (sampleBackendState (Some [checkpointQuiet [''agent'']]) [runningRun] []
                   (checkpointNew [] (JsString ''ok'')))
                sampleImports ''t1'')
       = [RUN_STARTED ''t1'' ''run-1'',
          MESSAGES_SNAPSHOT [''a'', ''b''] ''t1'' ''run-1'',
          STATE_SNAPSHOT valuesNew (RawValues ''run-1'' valuesNew) ''t1'' ''run-1'',
          CUSTOM ''on_interrupt'' (Some ([CHR 0x22] @ ''ok'' @ [CHR 0x22]))
            (RawInterrupt ''run-1'' (Some (JsString ''ok''))) ''t1'' ''run-1'',
          RUN_FINISHED ''t1'' ''run-1'']
   \<and> emitted (connect (sampleRunner 100)
                (sampleBackendState (Some [checkpointNew [''agent''] (JsString ''ok'')])
                   [runningRun] [] (checkpointNew [] (JsString ''ok'')))
                sampleImports ''t1'')
       = [RUN_STARTED ''t1'' ''run-1'',
          MESSAGES_SNAPSHOT [''a'', ''b''] ''t1'' ''run-1'',
          STATE_SNAPSHOT valuesNew (RawValues ''run-1'' valuesNew) ''t1'' ''run-1'',
          CUSTOM ''on_interrupt'' (Some ([CHR 0x22] @ ''ok'' @ [CHR 0x22]))
            (RawInterrupt ''run-1'' (Some (JsString ''ok''))) ''t1'' ''run-1'',
          CUSTOM ''on_interrupt'' (Some ([CHR 0x22] @ ''ok'' @ [CHR 0x22]))
            (RawInterrupt ''run-1'' (Some (JsString ''ok''))) ''t1'' ''run-1'',
          RUN_FINISHED ''t1'' ''run-1'']"
  by (simp add: run_defs flow_defs log_defs sample_defs sink_defs sampleBackendState_def)

lemma emitFallback_fields:
  "calls (emitFallback label im threadId s) = calls s
   \<and> completed (emitFallback label im threadId s)
   \<and> emitted (emitFallback label im threadId s)
       = emitted s @ [RUN_STARTED threadId (label @ random36 im (randoms s)),
                      MESSAGES_SNAPSHOT [] threadId (label @ random36 im (randoms s)),
                      RUN_FINISHED threadId (label @ random36 im (randoms s))]"
  by (simp add: emitFallback_def sink_defs)



lemma join_completed:
  "completed (snd (joinAndProcessStream client im threadId runId s)) = completed s"
proof (cases "runs_joinStream client threadId runId streamModes")
  case (Inl e)
  then show ?thesis by (simp add: join_failed subscriber_next_def request_def)
next
  case (Inr stream)
  from join_streamed [OF Inr, of im s] show ?thesis by auto
qed


lemma finishRun_completed: "completed (finishRun client im threadId runId latest s)"
  by (cases "findActiveRun client threadId latest s")
     (auto simp: finishRun_def subscriber_complete_def split: option.splits)






section \<open>Exceptions in the hydration flow\<close>

lemma connect_completed: "completed (connect r client im threadId)"
proof (cases "hydrate r client im threadId (initial r)")
  case (Pair thrown s)
  show ?thesis
  proof (cases thrown)
    case (Some e)
    then show ?thesis using Pair by (simp add: connect_def emitFallback_fields)
  next
    case None
    then have c: "connect r client im threadId = s" using Pair by (simp add: connect_def)
    have "completed s"
      using Pair None
      by (auto simp: hydrate_def hydrateHistory_def Let_def emitFallback_fields
               finishRun_completed split: sum.splits option.splits if_splits prod.splits)
    then show ?thesis using c by simp
  qed
qed

lemma connect_exception:
  assumes "hydrate r client im threadId (initial r) = (Some e, s)"
  shows "emitted (connect r client im threadId)
           = emitted s @ [RUN_STARTED threadId (''hydration_error_'' @ random36 im (randoms s)),
                          MESSAGES_SNAPSHOT [] threadId (''hydration_error_'' @ random36 im (randoms s)),
                          RUN_FINISHED threadId (''hydration_error_'' @ random36 im (randoms s))]"
  using assms by (simp add: connect_def emitFallback_fields)

lemma connect_early_exception:
  assumes "threads_getHistory client threadId (fetchLimit r) = Inl e
         \<or> (\<exists>fetched. threads_getHistory client threadId (fetchLimit r) = Inr (Some fetched)
               \<and> fetched \<noteq> []
               \<and> transformMessages im (limitedMessages r (extractMessages fetched)) = Inl e)"
  shows "emitted (connect r client im threadId)
           = [RUN_STARTED threadId (''hydration_error_'' @ random36 im 0),
              MESSAGES_SNAPSHOT [] threadId (''hydration_error_'' @ random36 im 0),
              RUN_FINISHED threadId (''hydration_error_'' @ random36 im 0)]"
  using assms
  by (auto simp: connect_def hydrate_def hydrateHistory_def emitSnapshot_def Let_def
        emitFallback_fields request_def initial_def)

text \<open>
  Claim C7. The claim is that under any exception anywhere in the hydration flow the sink
  sees one well-formed RUN_STARTED ... RUN_FINISHED bracket. \<open>connect_exception\<close> and
  \<open>connect_early_exception\<close> show what the \<open>catch\<close> block does, and that the claim holds when
  the exception is raised before the first event. Here the exception is raised after
  RUN_STARTED: the latest checkpoint carries an interrupt whose value is a BigInt, so
  \<open>JSON.stringify\<close> (line 517, not guarded as its twin in \<open>joinAndProcessStream\<close> is) throws
  after three events have been emitted. The \<open>catch\<close> block then emits a second RUN_STARTED
  under a new run id, and the run opened first is never finished.
\<close>

theorem late_exception_reopens_run:
  "emitted (connect (sampleRunner 100)
              (sampleBackend (Some [checkpointNew [] (JsBigInt 10), checkpointOld])
                 [finishedRun] [])
              sampleImports ''t1'')
     = [RUN_STARTED ''t1'' ''run-2'',
        MESSAGES_SNAPSHOT [''a'', ''b''] ''t1'' ''run-2'',
        STATE_SNAPSHOT valuesNew (RawValues ''run-2'' valuesNew) ''t1'' ''run-2'',
        RUN_STARTED ''t1'' ''hydration_error_k3x9'',
        MESSAGES_SNAPSHOT [] ''t1'' ''hydration_error_k3x9'',
        RUN_FINISHED ''t1'' ''hydration_error_k3x9'']"
  by (simp add: run_defs flow_defs log_defs sample_defs sink_defs)

text \<open>
  Claim C4. The claim is that for every non-empty history the snapshot events come in the
  order RUN_STARTED, MESSAGES_SNAPSHOT, STATE_SNAPSHOT (when the latest checkpoint has
  \<open>values\<close>), interrupt event (when the inspection finds an interrupt), none of them before
  an earlier one. \<open>snapshot_events_serialised\<close> shows this when nothing throws. Here the
  history is one checkpoint whose interrupt has a BigInt as value and the run list is
  empty: the inspection finds the interrupt, \<open>JSON.stringify\<close> (line 517) throws, no
  interrupt event is emitted, and the \<open>catch\<close> block emits RUN_STARTED and MESSAGES_SNAPSHOT
  after STATE_SNAPSHOT.
\<close>

theorem unserialisable_interrupt_breaks_snapshot:
  "findInterrupt (checkpointNew [] (JsBigInt 7)) = Some (Some (JsBigInt 7))
   \<and> emitted (connect (sampleRunner 100)
                (sampleBackend (Some [checkpointNew [] (JsBigInt 7)]) [] [])
                sampleImports ''t1'')
       = [RUN_STARTED ''t1'' ''hydration_k3x9'',
          MESSAGES_SNAPSHOT [''a'', ''b''] ''t1'' ''hydration_k3x9'',
          STATE_SNAPSHOT valuesNew (RawValues ''hydration_k3x9'' valuesNew) ''t1''
            ''hydration_k3x9'',
          RUN_STARTED ''t1'' ''hydration_error_q7w2'',
          MESSAGES_SNAPSHOT [] ''t1'' ''hydration_error_q7w2'',
          RUN_FINISHED ''t1'' ''hydration_error_q7w2'']"
  by (simp add: run_defs flow_defs log_defs sample_defs sink_defs)

section \<open>Properties of the stream join\<close>

lemma processOne_started_message:
  assumes tr: "processStreamChunk im = translateChunk"
    and st: "M \<in> startedMessages ls"
    and one: "processOne im threadId chunk (ls, s) = (ls1, s1)"
  shows "M \<in> startedMessages ls1
       \<and> (\<exists>added. emitted s1 = emitted s @ added
              \<and> (\<forall>t x. TEXT_MESSAGE_START M t x \<notin> set added))"
  using st one
  by (cases "chunk_shape chunk")
     (auto simp: processOne_def translateChunk_def Let_def tr split: if_splits)

lemma fold_started_message:
  assumes tr: "processStreamChunk im = translateChunk"
    and st: "M \<in> startedMessages ls"
    and run: "fold (processOne im threadId) chunks (ls, s) = (ls', s')"
  shows "M \<in> startedMessages ls'
       \<and> (\<exists>added. emitted s' = emitted s @ added
              \<and> (\<forall>t x. TEXT_MESSAGE_START M t x \<notin> set added))"
  using st run
proof (induction chunks arbitrary: ls s)
  case Nil
  then show ?case by simp
next
  case (Cons c cs)
  obtain ls1 s1 where one: "processOne im threadId c (ls, s) = (ls1, s1)"
    by (cases "processOne im threadId c (ls, s)")
  from processOne_started_message [OF tr Cons.prems(1) one] obtain a1 where
    m1: "M \<in> startedMessages ls1" and e1: "emitted s1 = emitted s @ a1"
    and n1: "\<forall>t x. TEXT_MESSAGE_START M t x \<notin> set a1" by blast
  have "fold (processOne im threadId) cs (ls1, s1) = (ls', s')"
    using Cons.prems(2) one by simp
  from Cons.IH [OF m1 this] obtain a2 where
    m2: "M \<in> startedMessages ls'" and e2: "emitted s' = emitted s1 @ a2"
    and n2: "\<forall>t x. TEXT_MESSAGE_START M t x \<notin> set a2" by blast
  have "emitted s' = emitted s @ (a1 @ a2)" using e1 e2 by simp
  moreover have "\<forall>t x. TEXT_MESSAGE_START M t x \<notin> set (a1 @ a2)" using n1 n2 by simp
  ultimately show ?case using m2 by blast
qed

lemma processOne_started_toolCall:
  assumes tr: "processStreamChunk im = translateChunk"
    and st: "T \<in> startedToolCalls ls"
    and one: "processOne im threadId chunk (ls, s) = (ls1, s1)"
  shows "T \<in> startedToolCalls ls1
       \<and> (\<exists>added. emitted s1 = emitted s @ added
              \<and> (\<forall>t x. TOOL_CALL_START T t x \<notin> set added))"
  using st one
  by (cases "chunk_shape chunk")
     (auto simp: processOne_def translateChunk_def Let_def tr split: if_splits)

lemma fold_started_toolCall:
  assumes tr: "processStreamChunk im = translateChunk"
    and st: "T \<in> startedToolCalls ls"
    and run: "fold (processOne im threadId) chunks (ls, s) = (ls', s')"
  shows "T \<in> startedToolCalls ls'
       \<and> (\<exists>added. emitted s' = emitted s @ added
              \<and> (\<forall>t x. TOOL_CALL_START T t x \<notin> set added))"
  using st run
proof (induction chunks arbitrary: ls s)
  case Nil
  then show ?case by simp
next
  case (Cons c cs)
  obtain ls1 s1 where one: "processOne im threadId c (ls, s) = (ls1, s1)"
    by (cases "processOne im threadId c (ls, s)")
  from processOne_started_toolCall [OF tr Cons.prems(1) one] obtain a1 where
    m1: "T \<in> startedToolCalls ls1" and e1: "emitted s1 = emitted s @ a1"
    and n1: "\<forall>t x. TOOL_CALL_START T t x \<notin> set a1" by blast
  have "fold (processOne im threadId) cs (ls1, s1) = (ls', s')"
    using Cons.prems(2) one by simp
  from Cons.IH [OF m1 this] obtain a2 where
    m2: "T \<in> startedToolCalls ls'" and e2: "emitted s' = emitted s1 @ a2"
    and n2: "\<forall>t x. TOOL_CALL_START T t x \<notin> set a2" by blast
  have "emitted s' = emitted s @ (a1 @ a2)" using e1 e2 by simp
  moreover have "\<forall>t x. TOOL_CALL_START T t x \<notin> set (a1 @ a2)" using n1 n2 by simp
  ultimately show ?case using m2 by blast
qed

lemma processOne_message_start_once:
  assumes tr: "processStreamChunk im = translateChunk"
    and one: "processOne im threadId chunk (ls, s) = (ls1, s1)"
  shows "\<exists>added. emitted s1 = emitted s @ added
           \<and> length (filter (isMessageStart M) added) \<le> 1
           \<and> (M \<in> startedMessages ls \<longrightarrow> filter (isMessageStart M) added = [])
           \<and> (filter (isMessageStart M) added \<noteq> [] \<longrightarrow> M \<in> startedMessages ls1)
           \<and> (M \<in> startedMessages ls \<longrightarrow> M \<in> startedMessages ls1)"
  using one
  by (cases "chunk_shape chunk")
     (auto simp: processOne_def translateChunk_def Let_def tr isMessageStart_def
           split: if_splits)

lemma fold_message_start_once:
  assumes tr: "processStreamChunk im = translateChunk"
    and run: "fold (processOne im threadId) chunks (ls, s) = (ls', s')"
  shows "\<exists>added. emitted s' = emitted s @ added
           \<and> length (filter (isMessageStart M) added) \<le> 1
           \<and> (M \<in> startedMessages ls \<longrightarrow> filter (isMessageStart M) added = [])"
  using run
proof (induction chunks arbitrary: ls s)
  case Nil
  then show ?case by simp
next
  case (Cons c cs)
  obtain ls1 s1 where one: "processOne im threadId c (ls, s) = (ls1, s1)"
    by (cases "processOne im threadId c (ls, s)")
  from processOne_message_start_once [OF tr one, of M] obtain a1 where
    e1: "emitted s1 = emitted s @ a1"
    and l1: "length (filter (isMessageStart M) a1) \<le> 1"
    and k1: "M \<in> startedMessages ls \<longrightarrow> filter (isMessageStart M) a1 = []"
    and n1: "filter (isMessageStart M) a1 \<noteq> [] \<longrightarrow> M \<in> startedMessages ls1"
    and m1: "M \<in> startedMessages ls \<longrightarrow> M \<in> startedMessages ls1"
    by blast
  have "fold (processOne im threadId) cs (ls1, s1) = (ls', s')"
    using Cons.prems one by simp
  from Cons.IH [OF this] obtain a2 where
    e2: "emitted s' = emitted s1 @ a2"
    and l2: "length (filter (isMessageStart M) a2) \<le> 1"
    and k2: "M \<in> startedMessages ls1 \<longrightarrow> filter (isMessageStart M) a2 = []"
    by blast
  have e: "emitted s' = emitted s @ (a1 @ a2)" using e1 e2 by simp
  have l: "length (filter (isMessageStart M) (a1 @ a2)) \<le> 1"
  proof (cases "filter (isMessageStart M) a1 = []")
    case True
    then show ?thesis using l2 by simp
  next
    case False
    then have "filter (isMessageStart M) a2 = []" using n1 k2 by simp
    then show ?thesis using l1 by simp
  qed
  have k: "M \<in> startedMessages ls \<longrightarrow> filter (isMessageStart M) (a1 @ a2) = []"
    using k1 m1 k2 by simp
  from e l k show ?case by blast
qed

lemma processOne_toolCall_start_once:
  assumes tr: "processStreamChunk im = translateChunk"
    and one: "processOne im threadId chunk (ls, s) = (ls1, s1)"
  shows "\<exists>added. emitted s1 = emitted s @ added
           \<and> length (filter (isToolCallStart T) added) \<le> 1
           \<and> (T \<in> startedToolCalls ls \<longrightarrow> filter (isToolCallStart T) added = [])
           \<and> (filter (isToolCallStart T) added \<noteq> [] \<longrightarrow> T \<in> startedToolCalls ls1)
           \<and> (T \<in> startedToolCalls ls \<longrightarrow> T \<in> startedToolCalls ls1)"
  using one
  by (cases "chunk_shape chunk")
     (auto simp: processOne_def translateChunk_def Let_def tr isToolCallStart_def
           split: if_splits)

lemma fold_toolCall_start_once:
  assumes tr: "processStreamChunk im = translateChunk"
    and run: "fold (processOne im threadId) chunks (ls, s) = (ls', s')"
  shows "\<exists>added. emitted s' = emitted s @ added
           \<and> length (filter (isToolCallStart T) added) \<le> 1
           \<and> (T \<in> startedToolCalls ls \<longrightarrow> filter (isToolCallStart T) added = [])"
  using run
proof (induction chunks arbitrary: ls s)
  case Nil
  then show ?case by simp
next
  case (Cons c cs)
  obtain ls1 s1 where one: "processOne im threadId c (ls, s) = (ls1, s1)"
    by (cases "processOne im threadId c (ls, s)")
  from processOne_toolCall_start_once [OF tr one, of T] obtain a1 where
    e1: "emitted s1 = emitted s @ a1"
    and l1: "length (filter (isToolCallStart T) a1) \<le> 1"
    and k1: "T \<in> startedToolCalls ls \<longrightarrow> filter (isToolCallStart T) a1 = []"
    and n1: "filter (isToolCallStart T) a1 \<noteq> [] \<longrightarrow> T \<in> startedToolCalls ls1"
    and m1: "T \<in> startedToolCalls ls \<longrightarrow> T \<in> startedToolCalls ls1"
    by blast
  have "fold (processOne im threadId) cs (ls1, s1) = (ls', s')"
    using Cons.prems one by simp
  from Cons.IH [OF this] obtain a2 where
    e2: "emitted s' = emitted s1 @ a2"
    and l2: "length (filter (isToolCallStart T) a2) \<le> 1"
    and k2: "T \<in> startedToolCalls ls1 \<longrightarrow> filter (isToolCallStart T) a2 = []"
    by blast
  have e: "emitted s' = emitted s @ (a1 @ a2)" using e1 e2 by simp
  have l: "length (filter (isToolCallStart T) (a1 @ a2)) \<le> 1"
  proof (cases "filter (isToolCallStart T) a1 = []")
    case True
    then show ?thesis using l2 by simp
  next
    case False
    then have "filter (isToolCallStart T) a2 = []" using n1 k2 by simp
    then show ?thesis using l1 by simp
  qed
  have k: "T \<in> startedToolCalls ls \<longrightarrow> filter (isToolCallStart T) (a1 @ a2) = []"
    using k1 m1 k2 by simp
  from e l k show ?case by blast
qed

lemma starts_once:
  assumes tr: "processStreamChunk im = translateChunk"
    and run: "fold (processOne im threadId) chunks (ls, s) = (ls', s')"
  shows "\<exists>added. emitted s' = emitted s @ added
           \<and> (\<forall>i. length (filter (isMessageStart i) added) \<le> 1
                  \<and> length (filter (isToolCallStart i) added) \<le> 1)"
proof -
  from fold_processOne_fields [OF run] obtain added where
    e: "emitted s' = emitted s @ added" by blast
  have "length (filter (isMessageStart i) added) \<le> 1
      \<and> length (filter (isToolCallStart i) added) \<le> 1" for i
    using fold_message_start_once [OF tr run, of i] fold_toolCall_start_once [OF tr run, of i] e
    by auto
  with e show ?thesis by blast
qed

text \<open>
  Claim C8. With the translator of section 4.4 of the specification in the loop of
  \<open>joinAndProcessStream\<close>, which starts with both started-sets empty: when the first chunk
  of the stream is a message chunk for the id \<open>M\<close> (content or end, no start seen), the
  first events are the synthesised start event for \<open>M\<close> and then the content (or end)
  event; \<open>M\<close> is in the started-set afterwards and no later chunk emits a start for \<open>M\<close>
  again. The same holds for a tool-call chunk and the tool-call id. Over the whole
  stream, a start event is emitted at most once for every message id and tool-call id.
\<close>

theorem midstream_start_synthesized:
  assumes tr: "processStreamChunk im = translateChunk"
    and run: "fold (processOne im threadId) (\<lparr> chunk_runId = new, chunk_shape = shape \<rparr> # chunks)
                (loopStart runId carried, s) = (ls, s')"
    and rid: "rid = (case new of None \<Rightarrow> runId | Some n \<Rightarrow> n)"
  shows "(shape = MessageChunk phase M delta \<longrightarrow>
            (\<exists>rest. emitted s'
                      = emitted s
                        @ [TEXT_MESSAGE_START M threadId rid,
                           if phase = PhaseEnd then TEXT_MESSAGE_END M threadId rid
                           else TEXT_MESSAGE_CONTENT M delta threadId rid]
                        @ rest
                  \<and> (\<forall>t x. TEXT_MESSAGE_START M t x \<notin> set rest))
            \<and> M \<in> startedMessages ls)
       \<and> (shape = ToolCallChunk phase M delta \<longrightarrow>
            (\<exists>rest. emitted s'
                      = emitted s
                        @ [TOOL_CALL_START M threadId rid,
                           if phase = PhaseEnd then TOOL_CALL_END M threadId rid
                           else TOOL_CALL_ARGS M delta threadId rid]
                        @ rest
                  \<and> (\<forall>t x. TOOL_CALL_START M t x \<notin> set rest))
            \<and> M \<in> startedToolCalls ls)
       \<and> (\<exists>added. emitted s' = emitted s @ added
              \<and> (\<forall>i. length (filter (isMessageStart i) added) \<le> 1
                     \<and> length (filter (isToolCallStart i) added) \<le> 1))"
proof -
  let ?c = "\<lparr> chunk_runId = new, chunk_shape = shape \<rparr>"
  obtain ls1 s1 where one: "processOne im threadId ?c (loopStart runId carried, s) = (ls1, s1)"
    by (cases "processOne im threadId ?c (loopStart runId carried, s)")
  have rest: "fold (processOne im threadId) chunks (ls1, s1) = (ls, s')"
    using run one by simp
  have msg: "(\<exists>rest. emitted s'
                      = emitted s
                        @ [TEXT_MESSAGE_START M threadId rid,
                           if phase = PhaseEnd then TEXT_MESSAGE_END M threadId rid
                           else TEXT_MESSAGE_CONTENT M delta threadId rid]
                        @ rest
                  \<and> (\<forall>t x. TEXT_MESSAGE_START M t x \<notin> set rest))
            \<and> M \<in> startedMessages ls"
    if sh: "shape = MessageChunk phase M delta"
  proof -
    have first: "emitted s1 = emitted s
                   @ [TEXT_MESSAGE_START M threadId rid,
                      if phase = PhaseEnd then TEXT_MESSAGE_END M threadId rid
                      else TEXT_MESSAGE_CONTENT M delta threadId rid]"
      and m1: "M \<in> startedMessages ls1"
      using one sh rid
      by (auto simp: processOne_def translateChunk_def loopStart_def Let_def tr split: option.splits)
    from fold_started_message [OF tr m1 rest] first show ?thesis by auto
  qed
  have tool: "(\<exists>rest. emitted s'
                      = emitted s
                        @ [TOOL_CALL_START M threadId rid,
                           if phase = PhaseEnd then TOOL_CALL_END M threadId rid
                           else TOOL_CALL_ARGS M delta threadId rid]
                        @ rest
                  \<and> (\<forall>t x. TOOL_CALL_START M t x \<notin> set rest))
            \<and> M \<in> startedToolCalls ls"
    if sh: "shape = ToolCallChunk phase M delta"
  proof -
    have first: "emitted s1 = emitted s
                   @ [TOOL_CALL_START M threadId rid,
                      if phase = PhaseEnd then TOOL_CALL_END M threadId rid
                      else TOOL_CALL_ARGS M delta threadId rid]"
      and m1: "M \<in> startedToolCalls ls1"
      using one sh rid
      by (auto simp: processOne_def translateChunk_def loopStart_def Let_def tr split: option.splits)
    from fold_started_toolCall [OF tr m1 rest] first show ?thesis by auto
  qed
  show ?thesis using msg tool starts_once [OF tr run] by blast
qed

theorem midstream_start_synthesized_witness:
  "emitted (snd (fold (processOne sampleImports ''t1'')
                   [contentChunk ''Hel'', contentChunk ''lo'', endChunk]
                   (loopStart ''run-1'' None, initial (sampleRunner 100))))
     = [TEXT_MESSAGE_START ''m1'' ''t1'' ''run-1'',
        TEXT_MESSAGE_CONTENT ''m1'' ''Hel'' ''t1'' ''run-1'',
        TEXT_MESSAGE_CONTENT ''m1'' ''lo'' ''t1'' ''run-1'',
        TEXT_MESSAGE_END ''m1'' ''t1'' ''run-1'']"
proof -
  let ?f = "fold (processOne sampleImports ''t1'')
              (\<lparr> chunk_runId = None, chunk_shape = MessageChunk PhaseContent ''m1'' ''Hel'' \<rparr>
               # [contentChunk ''lo'', endChunk])
              (loopStart ''run-1'' None, initial (sampleRunner 100))"
  have tr: "processStreamChunk sampleImports = translateChunk"
    by (simp add: sampleImports_def)
  have run: "?f = (fst ?f, snd ?f)" by simp
  have rid: "''run-1'' = (case None of None \<Rightarrow> ''run-1'' | Some n \<Rightarrow> n)" by simp
  have ev: "emitted (snd ?f)
              = [TEXT_MESSAGE_START ''m1'' ''t1'' ''run-1'',
                 TEXT_MESSAGE_CONTENT ''m1'' ''Hel'' ''t1'' ''run-1'',
                 TEXT_MESSAGE_CONTENT ''m1'' ''lo'' ''t1'' ''run-1'',
                 TEXT_MESSAGE_END ''m1'' ''t1'' ''run-1'']"
    by (simp add: run_defs sample_defs initial_def Let_def)
  show ?thesis
    using midstream_start_synthesized [OF tr run rid, of PhaseContent "''m1''" "''Hel''"] ev
    by (simp add: contentChunk_def)
qed









end
